theory Spec2Isabelle
  imports Complex_Main
begin

section \<open>Cross-image instance matching: the model\<close>

text \<open>
  The embedding follows \<^verbatim>\<open>src/ean_system/sam2_segmenter.py\<close>,
  \<^verbatim>\<open>src/ean_system/dinov2_embedder.py\<close>, \<^verbatim>\<open>src/matcher.py\<close> and
  \<^verbatim>\<open>src/config.py\<close>. Python and numpy integers are \<open>int\<close>; floating-point
  numbers are idealised as \<open>real\<close> (exact arithmetic and comparisons, no rounding, no
  NaN); an exception is an \<open>Inl\<close> result that every caller passes on, since no function
  of these files catches one. The two neural networks (the SAM2 mask generator and the
  DINOv2 backbone) are parameters of the model. The progress lines that the matcher
  prints are not modelled; the warning of \<open>compute_ffa_embedding\<close> is.
\<close>

datatype py_error = RuntimeError | IndexError | ValueError | ZeroDivisionError | SqueezedGrid

subsection \<open>Geometry helpers (\<^verbatim>\<open>sam2_segmenter.py\<close>)\<close>

text \<open>A box is the numpy array \<^verbatim>\<open>[x1, y1, x2, y2]\<close>; a mask is a 2-D boolean array,
  given by its rows.\<close>

type_synonym box = "int \<times> int \<times> int \<times> int"

type_synonym mask = "bool list list"

definition ncols :: "'a list list \<Rightarrow> nat" where
  "ncols m = (case m of [] \<Rightarrow> 0 | r # _ \<Rightarrow> length r)"

text \<open>\<^verbatim>\<open>np.any(mask, axis=1)\<close> (one flag per row) and \<^verbatim>\<open>np.any(mask, axis=0)\<close>
  (one flag per column).\<close>

definition np_any_axis1 :: "mask \<Rightarrow> bool list" where
  "np_any_axis1 m = map (\<lambda>row. list_ex (\<lambda>v. v) row) m"

definition np_any_axis0 :: "mask \<Rightarrow> bool list" where
  "np_any_axis0 m = map (\<lambda>j. list_ex (\<lambda>row. row ! j) m) [0..<ncols m]"

text \<open>\<^verbatim>\<open>np.where(flags)[0]\<close>: the indices of the true flags, ascending.\<close>

definition np_where :: "bool list \<Rightarrow> nat list" where
  "np_where bs = filter (\<lambda>i. bs ! i) [0..<length bs]"

text \<open>The fancy index \<^verbatim>\<open>[[0, -1]]\<close>: first and last entry; an empty array raises.\<close>

definition first_last :: "nat list \<Rightarrow> py_error + (nat \<times> nat)" where
  "first_last xs = (if xs = [] then Inl IndexError else Inr (hd xs, last xs))"

definition mask_to_bbox :: "mask \<Rightarrow> py_error + box" where
  "mask_to_bbox m =
     (let rows = np_any_axis1 m;
          cols = np_any_axis0 m
      in if \<not> list_ex (\<lambda>v. v) rows then Inr (0, 0, 0, 0)
         else case first_last (np_where rows) of
                Inl e \<Rightarrow> Inl e
              | Inr (y1, y2) \<Rightarrow>
                  (case first_last (np_where cols) of
                     Inl e \<Rightarrow> Inl e
                   | Inr (x1, x2) \<Rightarrow> Inr (int x1, int y1, int x2 + 1, int y2 + 1)))"

text \<open>True division of two integers; a zero divisor is the error branch.\<close>

definition truediv :: "int \<Rightarrow> int \<Rightarrow> py_error + real" where
  "truediv a b = (if b = 0 then Inl ZeroDivisionError else Inr (real_of_int a / real_of_int b))"

text \<open>
  The coordinates of a box are numpy \<open>int64\<close> values: a difference, product or sum of
  them that leaves the range from \<open>-2^63\<close> to \<open>2^63 - 1\<close> wraps around.
\<close>

definition wrap64 :: "int \<Rightarrow> int" where
  "wrap64 x = (x + 2 ^ 63) mod 2 ^ 64 - 2 ^ 63"

text \<open>
  \<^verbatim>\<open>bbox_iou(box1, box2)\<close>: the intersection rectangle is clipped at 0 in each
  direction, the result is \<^verbatim>\<open>intersection / union if union > 0 else 0\<close>. Every
  arithmetic operation is one on \<open>int64\<close> values.
\<close>

fun bbox_iou :: "box \<Rightarrow> box \<Rightarrow> py_error + real" where
  "bbox_iou (a0, a1, a2, a3) (b0, b1, b2, b3) =
     (let x1 = max a0 b0;
          y1 = max a1 b1;
          x2 = min a2 b2;
          y2 = min a3 b3;
          intersection = wrap64 (max 0 (wrap64 (x2 - x1)) * max 0 (wrap64 (y2 - y1)));
          area1 = wrap64 (wrap64 (a2 - a0) * wrap64 (a3 - a1));
          area2 = wrap64 (wrap64 (b2 - b0) * wrap64 (b3 - b1));
          union = wrap64 (wrap64 (area1 + area2) - intersection)
      in if union > 0 then truediv intersection union else Inr 0)"

subsection \<open>Foreground feature averaging (\<^verbatim>\<open>dinov2_embedder.py\<close>)\<close>

type_synonym vec = "real list"

text \<open>The patch grid \<^verbatim>\<open>patches_spatial[0]\<close>: \<open>grid_h\<close> rows of \<open>grid_w\<close> patch
  vectors, as the backbone gives it for one image.\<close>

type_synonym patch_grid = "vec list list"

text \<open>\<^verbatim>\<open>mask.astype(np.float32)\<close>.\<close>

definition astype_float :: "mask \<Rightarrow> real list list" where
  "astype_float m = map (map (\<lambda>b. if b then 1 else 0)) m"

text \<open>
  \<^verbatim>\<open>F.interpolate(x, size=(oh, ow), mode='bilinear', align_corners=False)\<close> on one
  channel, after torch's kernel: the source coordinate of output index \<open>dst\<close> is
  \<open>scale * (dst + 0.5) - 0.5\<close> clipped at 0 with \<open>scale = in / out\<close>, the two
  neighbours are its floor and the next index (the same index at the border), and the
  weight of the second is the fractional part. An empty input or output raises.
\<close>

definition source_index :: "nat \<Rightarrow> nat \<Rightarrow> nat \<Rightarrow> real" where
  "source_index in_size out_size dst =
     max 0 (real in_size / real out_size * (real dst + 1 / 2) - 1 / 2)"

definition bilinear_at :: "real list list \<Rightarrow> nat \<Rightarrow> nat \<Rightarrow> nat \<Rightarrow> nat \<Rightarrow> real" where
  "bilinear_at inp oh ow oy ox =
     (let ih = length inp;
          iw = ncols inp;
          sy = source_index ih oh oy;
          y0 = nat \<lfloor>sy\<rfloor>;
          y1 = (if y0 < ih - 1 then y0 + 1 else y0);
          ly = sy - real y0;
          sx = source_index iw ow ox;
          x0 = nat \<lfloor>sx\<rfloor>;
          x1 = (if x0 < iw - 1 then x0 + 1 else x0);
          lx = sx - real x0
      in (1 - ly) * ((1 - lx) * inp ! y0 ! x0 + lx * inp ! y0 ! x1)
         + ly * ((1 - lx) * inp ! y1 ! x0 + lx * inp ! y1 ! x1))"

definition interpolate_bilinear :: "real list list \<Rightarrow> nat \<Rightarrow> nat \<Rightarrow> py_error + real list list" where
  "interpolate_bilinear inp oh ow =
     (if length inp = 0 \<or> ncols inp = 0 \<or> oh = 0 \<or> ow = 0 then Inl RuntimeError
      else Inr (map (\<lambda>oy. map (\<lambda>ox. bilinear_at inp oh ow oy ox) [0..<ow]) [0..<oh]))"

text \<open>\<^verbatim>\<open>mask_resized > 0.5\<close>, \<^verbatim>\<open>patch_mask.sum()\<close> and \<^verbatim>\<open>torch.ones(grid_h, grid_w)\<close>.\<close>

definition binarize :: "real list list \<Rightarrow> bool list list" where
  "binarize mr = map (map (\<lambda>v. v > 1 / 2)) mr"

definition mask_sum :: "bool list list \<Rightarrow> nat" where
  "mask_sum pm = sum_list (map (\<lambda>row. length (filter (\<lambda>v. v) row)) pm)"

definition ones :: "nat \<Rightarrow> nat \<Rightarrow> bool list list" where
  "ones gh gw = replicate gh (replicate gw True)"

text \<open>Boolean-mask indexing \<^verbatim>\<open>patches_spatial[0][patch_mask]\<close>: the selected patch
  vectors in row-major order.\<close>

definition select_patches :: "patch_grid \<Rightarrow> bool list list \<Rightarrow> vec list" where
  "select_patches g pm =
     concat (map (\<lambda>(prow, mrow). map fst (filter snd (zip prow mrow))) (zip g pm))"

text \<open>\<^verbatim>\<open>fg_patches.mean(dim=0)\<close>: the component-wise mean.\<close>

definition mean_dim0 :: "vec list \<Rightarrow> vec" where
  "mean_dim0 ps =
     map (\<lambda>d. sum_list (map (\<lambda>p. p ! d) ps) / real (length ps)) [0..<ncols ps]"

text \<open>\<^verbatim>\<open>F.normalize(v, p=2, dim=0)\<close> is \<open>v / max(\<parallel>v\<parallel>, eps)\<close> with torch's default
  \<open>eps = 1e-12\<close>.\<close>

definition l2_norm :: "vec \<Rightarrow> real" where
  "l2_norm v = sqrt (sum_list (map (\<lambda>x. x\<^sup>2) v))"

definition normalize_eps :: real where
  "normalize_eps = 1 / 10 ^ 12"

definition F_normalize :: "vec \<Rightarrow> vec" where
  "F_normalize v = (let denom = max (l2_norm v) normalize_eps in map (\<lambda>x. x / denom) v)"



text \<open>\<^verbatim>\<open>compute_batch_ffa_embeddings\<close>: the loop over the masks, against one grid.\<close>

fun batch_loop :: "patch_grid \<Rightarrow> mask list \<Rightarrow> vec list \<Rightarrow> py_error + vec list" where
  "batch_loop patches_spatial [] embeddings = Inr embeddings"
| "batch_loop patches_spatial (m # masks) embeddings =
     (let grid_h = length patches_spatial;
          grid_w = ncols patches_spatial
      in case interpolate_bilinear (astype_float m) grid_h grid_w of
           Inl e \<Rightarrow> Inl e
         | Inr mask_resized \<Rightarrow>
             if grid_h = 1 \<or> grid_w = 1 then Inl SqueezedGrid
             else
               let patch_mask = binarize mask_resized;
                   patch_mask = (if mask_sum patch_mask = 0 then ones grid_h grid_w else patch_mask);
                   fg_patches = select_patches patches_spatial patch_mask;
                   emb = mean_dim0 fg_patches;
                   emb = F_normalize emb
               in batch_loop patches_spatial masks (embeddings @ [emb]))"

definition compute_batch_ffa_embeddings :: "patch_grid \<Rightarrow> mask list \<Rightarrow> py_error + vec list" where
  "compute_batch_ffa_embeddings patches_spatial masks =
     (if masks = [] then Inr [] else batch_loop patches_spatial masks [])"

text \<open>\<^verbatim>\<open>batch_cosine_similarity\<close> is the matrix-vector product
  \<^verbatim>\<open>candidates @ reference\<close>; a row of another length than the reference raises.\<close>

definition dot :: "vec \<Rightarrow> vec \<Rightarrow> real" where
  "dot a b = sum_list (map (\<lambda>(x, y). x * y) (zip a b))"

definition batch_cosine_similarity :: "vec \<Rightarrow> vec list \<Rightarrow> py_error + real list" where
  "batch_cosine_similarity reference candidates =
     (if list_ex (\<lambda>c. length c \<noteq> length reference) candidates then Inl ValueError
      else Inr (map (\<lambda>c. dot c reference) candidates))"

subsection \<open>The matcher (\<^verbatim>\<open>matcher.py\<close>, \<^verbatim>\<open>config.py\<close>)\<close>

text \<open>The three matching constants of the module \<open>config\<close>; each is read from the
  environment, with the defaults below when the variable is unset.\<close>

record config =
  SIMILARITY_THRESHOLD :: real
  TOP_K_MATCHES :: int
  NMS_IOU_THRESHOLD :: real

definition config_defaults :: config where
  "config_defaults =
     \<lparr>SIMILARITY_THRESHOLD = 65 / 100, TOP_K_MATCHES = 3, NMS_IOU_THRESHOLD = 5 / 10\<rparr>"

text \<open>A proposal of the mask generator, with the keys the matcher reads.\<close>

record proposal =
  segmentation :: mask
  prop_predicted_iou :: real
  prop_area :: int

record MatchResult =
  mask :: mask
  bbox :: box
  similarity :: real
  predicted_iou :: real
  area :: int
  embedding :: vec

record 'img ImageMatchResults =
  image_path :: string
  image :: 'img
  matches :: "MatchResult list"

definition best_match :: "'img ImageMatchResults \<Rightarrow> MatchResult option" where
  "best_match r = (case matches r of [] \<Rightarrow> None | x # _ \<Rightarrow> Some x)"

definition has_match :: "'img ImageMatchResults \<Rightarrow> bool" where
  "has_match r = (length (matches r) > 0)"

text \<open>
  The matcher object. \<open>auto_segmenter\<close> gives the proposal list that
  \<^verbatim>\<open>self.auto_segmenter.generate_proposals\<close> returns for an image (the SAM2 generator,
  then the area filter and the ordering by predicted IoU, on which no statement below
  depends), and \<open>embedder\<close> the patch grid that the backbone behind \<^verbatim>\<open>self.embedder\<close>
  computes for an image (preprocessing and patch extraction).
\<close>

record 'img InstanceMatcher =
  auto_segmenter :: "'img \<Rightarrow> proposal list"
  embedder :: "'img \<Rightarrow> patch_grid"
  similarity_threshold :: real
  top_k :: int
  nms_iou_threshold :: real

text \<open>Python's \<^verbatim>\<open>a or b\<close> on an optional number: \<open>None\<close> and zero are falsy.\<close>

definition py_or :: "'a::zero option \<Rightarrow> 'a \<Rightarrow> 'a" where
  "py_or a b = (case a of None \<Rightarrow> b | Some v \<Rightarrow> if v = 0 then b else v)"

definition InstanceMatcher_init ::
  "config \<Rightarrow> ('img \<Rightarrow> proposal list) \<Rightarrow> ('img \<Rightarrow> patch_grid)
     \<Rightarrow> real option \<Rightarrow> int option \<Rightarrow> real option \<Rightarrow> 'img InstanceMatcher" where
  "InstanceMatcher_init cfg segmenter backbone similarity_threshold_arg top_k_arg nms_iou_threshold_arg =
     \<lparr>auto_segmenter = segmenter,
      embedder = backbone,
      similarity_threshold = py_or similarity_threshold_arg (SIMILARITY_THRESHOLD cfg),
      top_k = py_or top_k_arg (TOP_K_MATCHES cfg),
      nms_iou_threshold = py_or nms_iou_threshold_arg (NMS_IOU_THRESHOLD cfg)\<rparr>"

text \<open>
  \<^verbatim>\<open>_nms\<close>: the outer loop runs over the indices \<open>i\<close>, the inner loop over
  \<open>j = i + 1, ..., len - 1\<close>; \<open>suppressed\<close> is the set of suppressed indices.
\<close>

fun nms_inner ::
  "real \<Rightarrow> MatchResult list \<Rightarrow> MatchResult \<Rightarrow> nat list \<Rightarrow> nat set \<Rightarrow> py_error + nat set" where
  "nms_inner thr candidates cand [] suppressed = Inr suppressed"
| "nms_inner thr candidates cand (j # js) suppressed =
     (if j \<in> suppressed then nms_inner thr candidates cand js suppressed
      else case bbox_iou (bbox cand) (bbox (candidates ! j)) of
             Inl e \<Rightarrow> Inl e
           | Inr iou \<Rightarrow>
               nms_inner thr candidates cand js
                 (if iou > thr then insert j suppressed else suppressed))"

fun nms_outer ::
  "real \<Rightarrow> MatchResult list \<Rightarrow> nat list \<Rightarrow> MatchResult list \<Rightarrow> nat set
     \<Rightarrow> py_error + MatchResult list" where
  "nms_outer thr candidates [] kept suppressed = Inr kept"
| "nms_outer thr candidates (i # is) kept suppressed =
     (if i \<in> suppressed then nms_outer thr candidates is kept suppressed
      else case nms_inner thr candidates (candidates ! i)
                  [i + 1..<length candidates] suppressed of
             Inl e \<Rightarrow> Inl e
           | Inr suppressed' \<Rightarrow>
               nms_outer thr candidates is (kept @ [candidates ! i]) suppressed')"

definition nms :: "real \<Rightarrow> MatchResult list \<Rightarrow> py_error + MatchResult list" where
  "nms thr candidates =
     (if candidates = [] then Inr []
      else nms_outer thr candidates [0..<length candidates] [] {})"

text \<open>Step 4 of \<^verbatim>\<open>match_in_image\<close>: the loop over
  \<^verbatim>\<open>enumerate(zip(similarities, proposals))\<close>; \<^verbatim>\<open>proposal_embeddings[i]\<close> raises
  when \<open>i\<close> is out of range.\<close>

fun collect_candidates ::
  "real \<Rightarrow> vec list \<Rightarrow> (nat \<times> real \<times> proposal) list \<Rightarrow> MatchResult list
     \<Rightarrow> py_error + MatchResult list" where
  "collect_candidates thr proposal_embeddings [] candidates = Inr candidates"
| "collect_candidates thr proposal_embeddings ((i, sim, p) # rest) candidates =
     (if sim \<ge> thr then
        case mask_to_bbox (segmentation p) of
          Inl e \<Rightarrow> Inl e
        | Inr b \<Rightarrow>
            if i < length proposal_embeddings then
              collect_candidates thr proposal_embeddings rest
                (candidates @
                   [\<lparr>mask = segmentation p, bbox = b, similarity = sim,
                     predicted_iou = prop_predicted_iou p, area = prop_area p,
                     embedding = proposal_embeddings ! i\<rparr>])
            else Inl IndexError
      else collect_candidates thr proposal_embeddings rest candidates)"

text \<open>\<^verbatim>\<open>candidates.sort(key=lambda x: x.similarity, reverse=True)\<close>: a stable sort,
  descending in the similarity.\<close>

definition sort_by_similarity :: "MatchResult list \<Rightarrow> MatchResult list" where
  "sort_by_similarity candidates = sort_key (\<lambda>c. - similarity c) candidates"

text \<open>The slice \<^verbatim>\<open>kept[:k]\<close>; a negative \<open>k\<close> counts from the end.\<close>

definition slice_to :: "'a list \<Rightarrow> int \<Rightarrow> 'a list" where
  "slice_to xs k = (if k \<ge> 0 then take (nat k) xs else take (nat (int (length xs) + k)) xs)"

definition match_in_image ::
  "'img InstanceMatcher \<Rightarrow> 'img \<Rightarrow> vec \<Rightarrow> string \<Rightarrow> py_error + 'img ImageMatchResults" where
  "match_in_image self target_image reference_embedding path =
     (let results = \<lparr>image_path = path, image = target_image, matches = []\<rparr>;
          proposals = auto_segmenter self target_image
      in if proposals = [] then Inr results
         else
           let proposal_masks = map segmentation proposals
           in case compute_batch_ffa_embeddings (embedder self target_image) proposal_masks of
                Inl e \<Rightarrow> Inl e
              | Inr proposal_embeddings \<Rightarrow>
                  (case batch_cosine_similarity reference_embedding proposal_embeddings of
                     Inl e \<Rightarrow> Inl e
                   | Inr similarities \<Rightarrow>
                       (case collect_candidates (similarity_threshold self) proposal_embeddings
                               (zip [0..<length similarities] (zip similarities proposals)) [] of
                          Inl e \<Rightarrow> Inl e
                        | Inr candidates \<Rightarrow>
                            (case nms (nms_iou_threshold self) (sort_by_similarity candidates) of
                               Inl e \<Rightarrow> Inl e
                             | Inr kept \<Rightarrow>
                                 Inr (results\<lparr>matches := slice_to kept (top_k self)\<rparr>)))))"

text \<open>\<^verbatim>\<open>match_across_images\<close>: one call of \<open>match_in_image\<close> per target image, in
  order; nothing catches a failure.\<close>

fun match_loop ::
  "'img InstanceMatcher \<Rightarrow> (string \<times> 'img) list \<Rightarrow> vec \<Rightarrow> 'img ImageMatchResults list
     \<Rightarrow> py_error + 'img ImageMatchResults list" where
  "match_loop self [] reference_embedding all_results = Inr all_results"
| "match_loop self ((path, img) # rest) reference_embedding all_results =
     (case match_in_image self img reference_embedding path of
        Inl e \<Rightarrow> Inl e
      | Inr result \<Rightarrow> match_loop self rest reference_embedding (all_results @ [result]))"

definition match_across_images ::
  "'img InstanceMatcher \<Rightarrow> (string \<times> 'img) list \<Rightarrow> vec \<Rightarrow> py_error + 'img ImageMatchResults list" where
  "match_across_images self target_images reference_embedding =
     match_loop self target_images reference_embedding []"

subsection \<open>Notions used in the statements\<close>

text \<open>A list of rows is rectangular when every row has the length of the first, as the
  rows of a 2-D array have.\<close>

definition rectangular :: "'a list list \<Rightarrow> bool" where
  "rectangular m = list_all (\<lambda>r. length r = ncols m) m"

text \<open>The pixel in row \<open>r\<close>, column \<open>c\<close> of a mask is set.\<close>

definition pixel :: "mask \<Rightarrow> nat \<Rightarrow> nat \<Rightarrow> bool" where
  "pixel m r c = (r < length m \<and> c < length (m ! r) \<and> m ! r ! c)"

text \<open>A box is tight for a mask: it covers every set pixel (columns \<open>x1 \<le> c < x2\<close>,
  rows \<open>y1 \<le> r < y2\<close>) and each of its four sides touches a set pixel.\<close>

definition tight_box :: "mask \<Rightarrow> box \<Rightarrow> bool" where
  "tight_box m b = (case b of (x1, y1, x2, y2) \<Rightarrow>
     0 \<le> x1 \<and> 0 \<le> y1 \<and> x1 < x2 \<and> y1 < y2
     \<and> (\<forall>r c. pixel m r c \<longrightarrow> x1 \<le> int c \<and> int c < x2 \<and> y1 \<le> int r \<and> int r < y2)
     \<and> (\<exists>r. pixel m r (nat x1)) \<and> (\<exists>r. pixel m r (nat (x2 - 1)))
     \<and> (\<exists>c. pixel m (nat y1) c) \<and> (\<exists>c. pixel m (nat (y2 - 1)) c))"

text \<open>A box whose coordinates are at most \<open>2^29\<close> in absolute value: on such boxes no
  operation of \<open>bbox_iou\<close> wraps around.\<close>

fun box_in_range :: "box \<Rightarrow> bool" where
  "box_in_range (a0, a1, a2, a3) =
     (\<bar>a0\<bar> \<le> 2 ^ 29 \<and> \<bar>a1\<bar> \<le> 2 ^ 29 \<and> \<bar>a2\<bar> \<le> 2 ^ 29 \<and> \<bar>a3\<bar> \<le> 2 ^ 29)"

text \<open>The number that \<open>bbox_iou\<close> returns, and the suppression test of \<open>_nms\<close>.\<close>

definition iou_val :: "box \<Rightarrow> box \<Rightarrow> real" where
  "iou_val a b = (case bbox_iou a b of Inl e \<Rightarrow> 0 | Inr v \<Rightarrow> v)"

definition suppresses :: "real \<Rightarrow> MatchResult \<Rightarrow> MatchResult \<Rightarrow> bool" where
  "suppresses thr c d = (iou_val (bbox c) (bbox d) > thr)"

text \<open>Greedy suppression written by recursion on the list: keep the head, drop from the
  tail what the head suppresses, go on with what is left. \<open>nms\<close> is shown to compute
  this.\<close>

function nms_rec :: "real \<Rightarrow> MatchResult list \<Rightarrow> MatchResult list" where
  "nms_rec thr [] = []"
| "nms_rec thr (c # cs) = c # nms_rec thr (filter (\<lambda>d. \<not> suppresses thr c d) cs)"
  by pat_completeness auto
termination
  by (relation "measure (\<lambda>(thr, cs). length cs)") (auto simp: less_Suc_eq_le)

text \<open>The candidates at the indices \<open>is\<close> that are not suppressed.\<close>

definition live :: "MatchResult list \<Rightarrow> nat list \<Rightarrow> nat set \<Rightarrow> MatchResult list" where
  "live cands is S = map (\<lambda>k. cands ! k) (filter (\<lambda>k. k \<notin> S) is)"

text \<open>A candidate with a given box and similarity, for the examples.\<close>

definition cand :: "box \<Rightarrow> real \<Rightarrow> MatchResult" where
  "cand b s = \<lparr>mask = [], bbox = b, similarity = s, predicted_iou = 1, area = 0, embedding = []\<rparr>"

subsection \<open>A small scene for the examples\<close>

text \<open>
  A 2 by 2 patch grid with three unit patch vectors of dimension 4, three masks on a
  2 by 5 image, each covering one patch by more than half, and the reference \<open>[1, 0, 0, 0]\<close>:
  the cosine similarities are 0.9, 0.72 and 0.3, and the boxes of the first two masks,
  \<open>[0, 0, 5, 1]\<close> and \<open>[0, 0, 4, 1]\<close>, have IoU 0.8.
\<close>

definition demo_grid :: patch_grid where
  "demo_grid =
     [[[9 / 10, 3 / 10, 3 / 10, 1 / 10], [18 / 25, 16 / 25, 6 / 25, 3 / 25]],
      [[3 / 10, 9 / 10, 3 / 10, 1 / 10], [0, 0, 0, 0]]]"

definition demo_mask1 :: mask where
  "demo_mask1 = [[True, True, False, False, True], [False, False, False, False, False]]"

definition demo_mask2 :: mask where
  "demo_mask2 = [[True, False, False, True, False], [False, False, False, False, False]]"

definition demo_mask3 :: mask where
  "demo_mask3 = [[False, False, False, False, False], [True, True, False, False, False]]"

definition demo_proposals :: "proposal list" where
  "demo_proposals =
     [\<lparr>segmentation = demo_mask1, prop_predicted_iou = 19 / 20, prop_area = 3\<rparr>,
      \<lparr>segmentation = demo_mask2, prop_predicted_iou = 9 / 10, prop_area = 2\<rparr>,
      \<lparr>segmentation = demo_mask3, prop_predicted_iou = 9 / 10, prop_area = 2\<rparr>]"

definition demo_reference :: vec where
  "demo_reference = [1, 0, 0, 0]"

text \<open>Images are numbered. For image 0 the mask generator yields one proposal whose
  mask has no rows (a malformed shape); for every other image it yields the three
  proposals above.\<close>

definition demo_segmenter :: "nat \<Rightarrow> proposal list" where
  "demo_segmenter img =
     (if img = 0 then [\<lparr>segmentation = [], prop_predicted_iou = 9 / 10, prop_area = 0\<rparr>]
      else demo_proposals)"

definition demo_matcher :: "nat InstanceMatcher" where
  "demo_matcher =
     InstanceMatcher_init config_defaults demo_segmenter (\<lambda>img. demo_grid) None None None"

section \<open>Properties\<close>

subsection \<open>Bounding boxes\<close>

lemma bbox_iou_Inr: "\<exists>r. bbox_iou a b = Inr r"
  by (cases a; cases b) (simp add: Let_def truediv_def)

lemma bbox_iou_iou_val: "bbox_iou a b = Inr (iou_val a b)"
  using bbox_iou_Inr [of a b] by (auto simp: iou_val_def)

lemma bbox_iou_commute: "bbox_iou a b = bbox_iou b a"
  by (cases a; cases b) (simp add: Let_def max.commute min.commute add.commute)

lemma iou_val_commute: "iou_val a b = iou_val b a"
  by (simp add: iou_val_def bbox_iou_commute)

lemma wrap64_id: "- (2 ^ 63) \<le> x \<Longrightarrow> x < 2 ^ 63 \<Longrightarrow> wrap64 x = x"
  by (simp add: wrap64_def)

lemma wrap64_le: "\<bar>x\<bar> \<le> b \<Longrightarrow> b \<le> 2 ^ 62 \<Longrightarrow> wrap64 x = x"
  by (rule wrap64_id) simp_all

lemma product_bound:
  assumes "\<bar>u\<bar> \<le> 2 ^ 30" and "\<bar>v\<bar> \<le> 2 ^ 30"
  shows "\<bar>u * v\<bar> \<le> (2 :: int) ^ 60"
proof -
  have "\<bar>u\<bar> * \<bar>v\<bar> \<le> 2 ^ 30 * 2 ^ 30"
    using assms by (intro mult_mono) simp_all
  then show ?thesis by (simp add: abs_mult)
qed

lemma difference_bound:
  assumes "\<bar>u\<bar> \<le> 2 ^ 29" and "\<bar>v\<bar> \<le> 2 ^ 29"
  shows "\<bar>u - v\<bar> \<le> (2 :: int) ^ 30"
proof -
  have "\<bar>u - v\<bar> \<le> \<bar>u\<bar> + \<bar>v\<bar>" by (rule abs_triangle_ineq4)
  also have "\<dots> \<le> 2 ^ 29 + 2 ^ 29" using assms by (rule add_mono)
  finally show ?thesis by simp
qed

lemma max0_bound: "\<bar>d\<bar> \<le> b \<Longrightarrow> \<bar>max 0 d\<bar> \<le> (b :: int)"
  by (auto simp: max_def)

lemma bbox_iou_in_range:
  assumes "box_in_range (a0, a1, a2, a3)" and "box_in_range (b0, b1, b2, b3)"
  shows "bbox_iou (a0, a1, a2, a3) (b0, b1, b2, b3) =
     (let intersection = max 0 (min a2 b2 - max a0 b0) * max 0 (min a3 b3 - max a1 b1);
          union = (a2 - a0) * (a3 - a1) + (b2 - b0) * (b3 - b1) - intersection
      in if union > 0 then truediv intersection union else Inr 0)"
proof -
  let ?dx = "min a2 b2 - max a0 b0" and ?dy = "min a3 b3 - max a1 b1"
  let ?A = "(a2 - a0) * (a3 - a1)" and ?B = "(b2 - b0) * (b3 - b1)"
  let ?I = "max 0 ?dx * max 0 ?dy"
  have ra: "\<bar>a0\<bar> \<le> 2 ^ 29" "\<bar>a1\<bar> \<le> 2 ^ 29" "\<bar>a2\<bar> \<le> 2 ^ 29" "\<bar>a3\<bar> \<le> 2 ^ 29"
    and rb: "\<bar>b0\<bar> \<le> 2 ^ 29" "\<bar>b1\<bar> \<le> 2 ^ 29" "\<bar>b2\<bar> \<le> 2 ^ 29" "\<bar>b3\<bar> \<le> 2 ^ 29"
    using assms by simp_all
  have mn: "\<bar>min a2 b2\<bar> \<le> 2 ^ 29" "\<bar>min a3 b3\<bar> \<le> 2 ^ 29"
    "\<bar>max a0 b0\<bar> \<le> 2 ^ 29" "\<bar>max a1 b1\<bar> \<le> 2 ^ 29"
    using ra rb by (simp_all add: min_def max_def)
  have dx: "\<bar>?dx\<bar> \<le> 2 ^ 30" and dy: "\<bar>?dy\<bar> \<le> 2 ^ 30"
    using mn by (simp_all only: difference_bound)
  have wa: "\<bar>a2 - a0\<bar> \<le> 2 ^ 30" and ha: "\<bar>a3 - a1\<bar> \<le> 2 ^ 30"
    and wb: "\<bar>b2 - b0\<bar> \<le> 2 ^ 30" and hb: "\<bar>b3 - b1\<bar> \<le> 2 ^ 30"
    using ra rb by (simp_all only: difference_bound)
  have mx: "\<bar>max 0 ?dx\<bar> \<le> 2 ^ 30" and my: "\<bar>max 0 ?dy\<bar> \<le> 2 ^ 30"
    by (rule max0_bound [OF dx], rule max0_bound [OF dy])
  have i: "\<bar>?I\<bar> \<le> 2 ^ 60"
    using mx my by (rule product_bound)
  have a: "\<bar>?A\<bar> \<le> 2 ^ 60"
    using wa ha by (rule product_bound)
  have b: "\<bar>?B\<bar> \<le> 2 ^ 60"
    using wb hb by (rule product_bound)
  have "\<bar>?A + ?B\<bar> \<le> \<bar>?A\<bar> + \<bar>?B\<bar>" by (rule abs_triangle_ineq)
  also have "\<dots> \<le> 2 ^ 60 + 2 ^ 60" using a b by (rule add_mono)
  finally have ab: "\<bar>?A + ?B\<bar> \<le> 2 ^ 60 + 2 ^ 60" .
  have "\<bar>?A + ?B - ?I\<bar> \<le> \<bar>?A + ?B\<bar> + \<bar>?I\<bar>" by (rule abs_triangle_ineq4)
  also have "\<dots> \<le> (2 ^ 60 + 2 ^ 60) + 2 ^ 60" using ab i by (rule add_mono)
  finally have u: "\<bar>?A + ?B - ?I\<bar> \<le> (2 ^ 60 + 2 ^ 60) + 2 ^ 60" .
  have w1: "wrap64 ?dx = ?dx" "wrap64 ?dy = ?dy"
    by (rule wrap64_le [OF dx], simp, rule wrap64_le [OF dy], simp)
  have w1a: "wrap64 (a2 - a0) = a2 - a0" "wrap64 (a3 - a1) = a3 - a1"
    by (rule wrap64_le [OF wa], simp, rule wrap64_le [OF ha], simp)
  have w1b: "wrap64 (b2 - b0) = b2 - b0" "wrap64 (b3 - b1) = b3 - b1"
    by (rule wrap64_le [OF wb], simp, rule wrap64_le [OF hb], simp)
  have w2: "wrap64 ?I = ?I" "wrap64 ?A = ?A" "wrap64 ?B = ?B"
    by (rule wrap64_le [OF i], simp, rule wrap64_le [OF a], simp, rule wrap64_le [OF b], simp)
  have w3: "wrap64 (?A + ?B) = ?A + ?B"
    by (rule wrap64_le [OF ab]) simp
  have w4: "wrap64 (?A + ?B - ?I) = ?A + ?B - ?I"
    by (rule wrap64_le [OF u]) simp
  show ?thesis
    by (simp only: bbox_iou.simps Let_def w1 w1a w1b w2 w3 w4)
qed

text \<open>
  Claim C7, as amended. For boxes whose coordinates are at most \<open>2^29\<close> in absolute
  value (so that no \<open>int64\<close> operation wraps): two boxes without a common interior (one
  lies left of, right of, above or below the other) have IoU exactly 0; a box of positive
  width and height has IoU exactly 1 with itself; and whenever the union area is not
  positive the function returns 0. On every pair of boxes it returns a number, so the
  division is never by zero.
\<close>

theorem bbox_iou_disjoint_identical:
  "(box_in_range (a0, a1, a2, a3) \<and> box_in_range (b0, b1, b2, b3)
      \<and> (a2 \<le> b0 \<or> b2 \<le> a0 \<or> a3 \<le> b1 \<or> b3 \<le> a1)
      \<longrightarrow> bbox_iou (a0, a1, a2, a3) (b0, b1, b2, b3) = Inr 0)
   \<and> (box_in_range (a0, a1, a2, a3) \<and> a0 < a2 \<and> a1 < a3
      \<longrightarrow> bbox_iou (a0, a1, a2, a3) (a0, a1, a2, a3) = Inr 1)
   \<and> (box_in_range (a0, a1, a2, a3) \<and> box_in_range (b0, b1, b2, b3)
      \<and> (a2 - a0) * (a3 - a1) + (b2 - b0) * (b3 - b1)
          - max 0 (min a2 b2 - max a0 b0) * max 0 (min a3 b3 - max a1 b1) \<le> 0
      \<longrightarrow> bbox_iou (a0, a1, a2, a3) (b0, b1, b2, b3) = Inr 0)
   \<and> (\<exists>r. bbox_iou (a0, a1, a2, a3) (b0, b1, b2, b3) = Inr r)"
proof (intro conjI impI)
  assume h: "box_in_range (a0, a1, a2, a3) \<and> box_in_range (b0, b1, b2, b3)
      \<and> (a2 \<le> b0 \<or> b2 \<le> a0 \<or> a3 \<le> b1 \<or> b3 \<le> a1)"
  then have d: "a2 \<le> b0 \<or> b2 \<le> a0 \<or> a3 \<le> b1 \<or> b3 \<le> a1" by blast
  have "max 0 (min a2 b2 - max a0 b0) = 0 \<or> max 0 (min a3 b3 - max a1 b1) = 0"
    using d by auto
  then have "max 0 (min a2 b2 - max a0 b0) * max 0 (min a3 b3 - max a1 b1) = 0"
    by auto
  then show "bbox_iou (a0, a1, a2, a3) (b0, b1, b2, b3) = Inr 0"
    using h by (simp add: bbox_iou_in_range Let_def truediv_def del: bbox_iou.simps box_in_range.simps)
next
  assume h: "box_in_range (a0, a1, a2, a3) \<and> a0 < a2 \<and> a1 < a3"
  then have p: "a0 < a2 \<and> a1 < a3" by blast
  then have pos: "0 < (a2 - a0) * (a3 - a1)"
    by simp
  have "max 0 (a2 - a0) = a2 - a0" "max 0 (a3 - a1) = a3 - a1"
    using p by simp_all
  then show "bbox_iou (a0, a1, a2, a3) (a0, a1, a2, a3) = Inr 1"
    using pos p h
    by (simp add: bbox_iou_in_range Let_def truediv_def del: bbox_iou.simps box_in_range.simps)
next
  assume "box_in_range (a0, a1, a2, a3) \<and> box_in_range (b0, b1, b2, b3)
      \<and> (a2 - a0) * (a3 - a1) + (b2 - b0) * (b3 - b1)
          - max 0 (min a2 b2 - max a0 b0) * max 0 (min a3 b3 - max a1 b1) \<le> 0"
  then show "bbox_iou (a0, a1, a2, a3) (b0, b1, b2, b3) = Inr 0"
    by (simp add: bbox_iou_in_range Let_def del: bbox_iou.simps box_in_range.simps)
next
  show "\<exists>r. bbox_iou (a0, a1, a2, a3) (b0, b1, b2, b3) = Inr r"
    by (rule bbox_iou_Inr)
qed

theorem bbox_iou_disjoint_identical_witness:
  "box_in_range (0, 0, 2, 2) \<and> box_in_range (2, 0, 4, 2)
   \<and> bbox_iou (0, 0, 2, 2) (2, 0, 4, 2) = Inr 0
   \<and> box_in_range (0, 0, 2, 3)
   \<and> bbox_iou (0, 0, 2, 3) (0, 0, 2, 3) = Inr 1
   \<and> box_in_range (1, 1, 1, 1) \<and> box_in_range (5, 5, 5, 9)
   \<and> bbox_iou (1, 1, 1, 1) (5, 5, 5, 9) = Inr 0"
proof -
  have r: "box_in_range (0, 0, 2, 2)" "box_in_range (2, 0, 4, 2)" "box_in_range (0, 0, 2, 3)"
    "box_in_range (1, 1, 1, 1)" "box_in_range (5, 5, 5, 9)"
    by simp_all
  have 1: "bbox_iou (0, 0, 2, 2) (2, 0, 4, 2) = Inr 0"
    using bbox_iou_disjoint_identical
      [where ?a0.0 = 0 and ?a1.0 = 0 and ?a2.0 = 2 and ?a3.0 = 2
         and ?b0.0 = 2 and ?b1.0 = 0 and ?b2.0 = 4 and ?b3.0 = 2, THEN conjunct1] r
    by simp
  have 2: "bbox_iou (0, 0, 2, 3) (0, 0, 2, 3) = Inr 1"
    using bbox_iou_disjoint_identical
      [where ?a0.0 = 0 and ?a1.0 = 0 and ?a2.0 = 2 and ?a3.0 = 3
         and ?b0.0 = 0 and ?b1.0 = 0 and ?b2.0 = 2 and ?b3.0 = 3,
       THEN conjunct2, THEN conjunct1] r
    by simp
  have 3: "bbox_iou (1, 1, 1, 1) (5, 5, 5, 9) = Inr 0"
    using bbox_iou_disjoint_identical
      [where ?a0.0 = 1 and ?a1.0 = 1 and ?a2.0 = 1 and ?a3.0 = 1
         and ?b0.0 = 5 and ?b1.0 = 5 and ?b2.0 = 5 and ?b3.0 = 9,
       THEN conjunct2, THEN conjunct2, THEN conjunct1] r
    by simp
  from r 1 2 3 show ?thesis by blast
qed

text \<open>
  Claim C7 as stated fails on the degenerate box that \<open>mask_to_bbox\<close> gives for an
  all-false mask: it is identical to itself, its union area is zero, and the result is 0.
\<close>

theorem bbox_iou_identical_counterexample:
  "bbox_iou (0, 0, 0, 0) (0, 0, 0, 0) \<noteq> Inr 1"
  by (simp add: Let_def wrap64_def)

text \<open>Beyond the range the areas wrap: a box of side \<open>2^32\<close> has \<open>int64\<close> area 0, and
  its IoU with itself is 0.\<close>

lemma bbox_iou_wraps:
  "bbox_iou (0, 0, 2 ^ 32, 2 ^ 32) (0, 0, 2 ^ 32, 2 ^ 32) = Inr 0"
  by (simp add: Let_def wrap64_def)

subsection \<open>From a mask to its box\<close>

lemma set_np_where: "set (np_where bs) = {i. i < length bs \<and> bs ! i}"
  by (auto simp: np_where_def)

lemma sorted_np_where: "sorted (np_where bs)"
  by (simp add: np_where_def sorted_wrt_filter)

lemma sorted_hd_le: "sorted xs \<Longrightarrow> x \<in> set xs \<Longrightarrow> hd xs \<le> (x::nat)"
  by (cases xs) auto

lemma sorted_le_last: "sorted xs \<Longrightarrow> x \<in> set xs \<Longrightarrow> (x::nat) \<le> last xs"
  by (induction xs) (auto split: if_splits)

lemma np_any_axis1_nth:
  assumes "r < length m"
  shows "np_any_axis1 m ! r = (\<exists>c. pixel m r c)"
proof -
  have "np_any_axis1 m ! r = (\<exists>v \<in> set (m ! r). v)"
    using assms by (simp add: np_any_axis1_def list_ex_iff)
  also have "\<dots> = (\<exists>c < length (m ! r). m ! r ! c)"
    by (metis in_set_conv_nth)
  also have "\<dots> = (\<exists>c. pixel m r c)"
    using assms by (auto simp: pixel_def)
  finally show ?thesis .
qed

lemma length_np_any_axis1: "length (np_any_axis1 m) = length m"
  by (simp add: np_any_axis1_def)

lemma rectangular_length: "rectangular m \<Longrightarrow> r < length m \<Longrightarrow> length (m ! r) = ncols m"
  by (simp add: rectangular_def list_all_length)

lemma length_np_any_axis0: "length (np_any_axis0 m) = ncols m"
  by (simp add: np_any_axis0_def)

lemma np_any_axis0_nth:
  assumes "rectangular m" and "c < ncols m"
  shows "np_any_axis0 m ! c = (\<exists>r. pixel m r c)"
proof -
  have "np_any_axis0 m ! c = (\<exists>row \<in> set m. row ! c)"
    using assms(2) by (simp add: np_any_axis0_def list_ex_iff)
  also have "\<dots> = (\<exists>r < length m. m ! r ! c)"
    by (metis in_set_conv_nth)
  also have "\<dots> = (\<exists>r. pixel m r c)"
    using assms by (auto simp: pixel_def rectangular_length)
  finally show ?thesis .
qed

lemma pixel_bounds: "rectangular m \<Longrightarrow> pixel m r c \<Longrightarrow> r < length m \<and> c < ncols m"
  by (auto simp: pixel_def rectangular_length)

lemma rows_any_iff: "list_ex (\<lambda>v. v) (np_any_axis1 m) = (\<exists>r c. pixel m r c)"
proof -
  have "list_ex (\<lambda>v. v) (np_any_axis1 m) = (\<exists>r < length (np_any_axis1 m). np_any_axis1 m ! r)"
    unfolding list_ex_iff by (metis in_set_conv_nth)
  also have "\<dots> = (\<exists>r < length m. np_any_axis1 m ! r)"
    by (simp add: length_np_any_axis1)
  also have "\<dots> = (\<exists>r < length m. \<exists>c. pixel m r c)"
    by (simp add: np_any_axis1_nth cong: conj_cong)
  also have "\<dots> = (\<exists>r c. pixel m r c)"
    unfolding pixel_def by blast
  finally show ?thesis .
qed

lemma set_where_rows: "set (np_where (np_any_axis1 m)) = {r. \<exists>c. pixel m r c}"
  by (auto simp: set_np_where length_np_any_axis1 np_any_axis1_nth pixel_def)

lemma set_where_cols:
  "rectangular m \<Longrightarrow> set (np_where (np_any_axis0 m)) = {c. \<exists>r. pixel m r c}"
proof (intro set_eqI iffI)
  fix c assume a: "c \<in> set (np_where (np_any_axis0 m))"
  assume rect: "rectangular m"
  from a have "c < ncols m" "np_any_axis0 m ! c"
    by (simp_all add: set_np_where length_np_any_axis0)
  then show "c \<in> {c. \<exists>r. pixel m r c}"
    using rect np_any_axis0_nth by simp
next
  fix c assume a: "c \<in> {c. \<exists>r. pixel m r c}"
  assume rect: "rectangular m"
  from a obtain r where "pixel m r c" by auto
  then have "c < ncols m" using rect pixel_bounds by blast
  then show "c \<in> set (np_where (np_any_axis0 m))"
    using a rect by (simp add: set_np_where length_np_any_axis0 np_any_axis0_nth)
qed

lemma mask_to_bbox_all_false:
  "\<not> (\<exists>r c. pixel m r c) \<Longrightarrow> mask_to_bbox m = Inr (0, 0, 0, 0)"
  by (simp add: mask_to_bbox_def rows_any_iff)

lemma mask_to_bbox_some_true:
  assumes rect: "rectangular m" and px: "pixel m r0 c0"
  shows "\<exists>b. mask_to_bbox m = Inr b \<and> tight_box m b"
proof -
  let ?ys = "np_where (np_any_axis1 m)"
  let ?xs = "np_where (np_any_axis0 m)"
  have r0: "r0 \<in> set ?ys" using px by (auto simp: set_where_rows)
  have c0: "c0 \<in> set ?xs" using px rect by (auto simp: set_where_cols)
  have ne: "?ys \<noteq> []" "?xs \<noteq> []" using r0 c0 by auto
  have any: "list_ex (\<lambda>v. v) (np_any_axis1 m)" using px by (auto simp: rows_any_iff)
  have eq: "mask_to_bbox m = Inr (int (hd ?xs), int (hd ?ys), int (last ?xs) + 1, int (last ?ys) + 1)"
    using ne any by (simp add: mask_to_bbox_def first_last_def Let_def)
  have hy: "hd ?ys \<in> set ?ys" "last ?ys \<in> set ?ys" using ne by simp_all
  have hx: "hd ?xs \<in> set ?xs" "last ?xs \<in> set ?xs" using ne by simp_all
  have cover: "hd ?xs \<le> c \<and> c \<le> last ?xs \<and> hd ?ys \<le> r \<and> r \<le> last ?ys" if "pixel m r c" for r c
  proof -
    have "r \<in> set ?ys" "c \<in> set ?xs" using that rect by (auto simp: set_where_rows set_where_cols)
    then show ?thesis
      by (simp add: sorted_np_where sorted_hd_le sorted_le_last)
  qed
  have le: "hd ?xs \<le> last ?xs" "hd ?ys \<le> last ?ys" using cover[OF px] by auto
  have ex: "\<exists>r. pixel m r (hd ?xs)" "\<exists>r. pixel m r (last ?xs)"
    using hx rect by (auto simp: set_where_cols)
  have ey: "\<exists>c. pixel m (hd ?ys) c" "\<exists>c. pixel m (last ?ys) c"
    using hy by (auto simp: set_where_rows)
  have cov: "\<forall>r c. pixel m r c \<longrightarrow>
      int (hd ?xs) \<le> int c \<and> int c < int (last ?xs) + 1
      \<and> int (hd ?ys) \<le> int r \<and> int r < int (last ?ys) + 1"
  proof (intro allI impI)
    fix r c assume "pixel m r c"
    from cover[OF this] show "int (hd ?xs) \<le> int c \<and> int c < int (last ?xs) + 1
      \<and> int (hd ?ys) \<le> int r \<and> int r < int (last ?ys) + 1"
      by linarith
  qed
  have "tight_box m (int (hd ?xs), int (hd ?ys), int (last ?xs) + 1, int (last ?ys) + 1)"
    unfolding tight_box_def prod.case using le ex ey cov by simp
  with eq show ?thesis by blast
qed

text \<open>
  Claim C9. For a mask with at least one set pixel \<open>mask_to_bbox\<close> returns the tight
  box of the set pixels; for a mask with none it returns \<open>[0, 0, 0, 0]\<close>; it raises in
  neither case.
\<close>

theorem mask_to_bbox_tight:
  "rectangular m \<Longrightarrow>
     (if \<exists>r c. pixel m r c then \<exists>b. mask_to_bbox m = Inr b \<and> tight_box m b
      else mask_to_bbox m = Inr (0, 0, 0, 0))"
proof (cases "\<exists>r c. pixel m r c")
  case True
  assume "rectangular m"
  with True mask_to_bbox_some_true have "\<exists>b. mask_to_bbox m = Inr b \<and> tight_box m b"
    by blast
  with True show ?thesis by simp
next
  case False
  with mask_to_bbox_all_false [OF False] show ?thesis by simp
qed


theorem mask_to_bbox_tight_witness:
  "rectangular [[False, True, False], [False, True, True], [False, False, False]]
   \<and> (\<exists>r c. pixel [[False, True, False], [False, True, True], [False, False, False]] r c)
   \<and> (\<exists>b. mask_to_bbox [[False, True, False], [False, True, True], [False, False, False]] = Inr b
          \<and> tight_box [[False, True, False], [False, True, True], [False, False, False]] b)
   \<and> rectangular [[False, False], [False, False]]
   \<and> mask_to_bbox [[False, False], [False, False]] = Inr (0, 0, 0, 0)"
proof -
  let ?m = "[[False, True, False], [False, True, True], [False, False, False]]"
  let ?z = "[[False, False], [False, False]]"
  have r: "rectangular ?m" "rectangular ?z"
    by (simp_all add: rectangular_def ncols_def)
  have p: "pixel ?m 0 1"
    by (simp add: pixel_def)
  then have e: "\<exists>r c. pixel ?m r c"
    by blast
  have n: "\<not> (\<exists>r c. pixel ?z r c)"
    by (auto simp: pixel_def nth_Cons split: nat.splits)
  show ?thesis
    using mask_to_bbox_tight [OF r(1)] mask_to_bbox_tight [OF r(2)] r e n by simp
qed

subsection \<open>Greedy suppression\<close>

lemma nms_inner_eq:
  "nms_inner thr cands c js S =
     Inr (S \<union> {j \<in> set js. suppresses thr c (cands ! j)})"
proof (induction js arbitrary: S)
  case Nil
  then show ?case by simp
next
  case (Cons j js)
  show ?case
  proof (cases "j \<in> S")
    case True
    then show ?thesis by (auto simp: Cons.IH)
  next
    case False
    then show ?thesis
      by (auto simp: Cons.IH bbox_iou_iou_val suppresses_def)
  qed
qed

lemma live_suppress:
  "live cands is (S \<union> {j \<in> set is. suppresses thr c (cands ! j)})
     = filter (\<lambda>d. \<not> suppresses thr c d) (live cands is S)"
proof -
  have "filter (\<lambda>k. k \<notin> S \<union> {j \<in> set is. suppresses thr c (cands ! j)}) is
        = filter (\<lambda>k. \<not> suppresses thr c (cands ! k)) (filter (\<lambda>k. k \<notin> S) is)"
    by (simp add: filter_filter) (rule filter_cong, auto)
  then show ?thesis
    by (simp add: live_def filter_map o_def)
qed

lemma nms_outer_eq:
  "n = length cands \<Longrightarrow>
   nms_outer thr cands [i..<n] kept S = Inr (kept @ nms_rec thr (live cands [i..<n] S))"
proof (induction "n - i" arbitrary: i kept S)
  case 0
  then show ?case by (simp add: live_def)
next
  case (Suc k)
  then have lt: "i < n" and k: "k = n - Suc i" by auto
  have upt: "[i..<n] = i # [Suc i..<n]" using lt by (simp add: upt_conv_Cons)
  show ?case
  proof (cases "i \<in> S")
    case True
    have "live cands [i..<n] S = live cands [Suc i..<n] S"
      using True by (simp add: upt live_def)
    then show ?thesis
      using True Suc.hyps(1) [OF k Suc.prems] by (simp add: upt)
  next
    case False
    let ?c = "cands ! i"
    let ?S' = "S \<union> {j \<in> set [Suc i..<n]. suppresses thr ?c (cands ! j)}"
    have l: "live cands [i..<n] S = ?c # live cands [Suc i..<n] S"
      using False by (simp add: upt live_def)
    have "nms_outer thr cands (i # [Suc i..<n]) kept S
            = nms_outer thr cands [Suc i..<n] (kept @ [?c]) ?S'"
      using False Suc.prems by (simp add: nms_inner_eq)
    then have "nms_outer thr cands [i..<n] kept S
            = nms_outer thr cands [Suc i..<n] (kept @ [?c]) ?S'"
      by (simp only: upt)
    also have "\<dots> = Inr ((kept @ [?c]) @ nms_rec thr (live cands [Suc i..<n] ?S'))"
      by (rule Suc.hyps(1) [OF k Suc.prems])
    also have "live cands [Suc i..<n] ?S' = filter (\<lambda>d. \<not> suppresses thr ?c d) (live cands [Suc i..<n] S)"
      by (rule live_suppress)
    finally show ?thesis
      by (simp add: l)
  qed
qed

lemma nms_eq: "nms thr cands = Inr (nms_rec thr cands)"
proof (cases "cands = []")
  case True
  then show ?thesis by (simp add: nms_def)
next
  case False
  have "live cands [0..<length cands] {} = cands"
    by (simp add: live_def map_nth)
  then show ?thesis
    using False nms_outer_eq [of "length cands" cands thr 0 "[]" "{}"] by (simp add: nms_def)
qed

lemma set_nms_rec: "set (nms_rec thr cs) \<subseteq> set cs"
  by (induction thr cs rule: nms_rec.induct) auto

lemma sorted_wrt_nms_rec:
  "sorted_wrt R cs \<Longrightarrow> sorted_wrt R (nms_rec thr cs)"
proof (induction thr cs rule: nms_rec.induct)
  case (1 thr)
  then show ?case by simp
next
  case (2 thr c cs)
  let ?cs' = "filter (\<lambda>d. \<not> suppresses thr c d) cs"
  have "sorted_wrt R ?cs'"
    using "2.prems" by (simp add: sorted_wrt_filter)
  then have "sorted_wrt R (nms_rec thr ?cs')"
    by (rule "2.IH")
  moreover have "\<forall>x \<in> set (nms_rec thr ?cs'). R c x"
    using "2.prems" set_nms_rec [of thr ?cs'] by auto
  ultimately show ?case by simp
qed

lemma nms_rec_not_suppressed:
  "sorted_wrt (\<lambda>a b. \<not> suppresses thr a b) (nms_rec thr cs)"
proof (induction thr cs rule: nms_rec.induct)
  case (1 thr)
  then show ?case by simp
next
  case (2 thr c cs)
  let ?cs' = "filter (\<lambda>d. \<not> suppresses thr c d) cs"
  have sub: "set (nms_rec thr ?cs') \<subseteq> set ?cs'"
    by (rule set_nms_rec)
  have h: "\<forall>x \<in> set (nms_rec thr ?cs'). \<not> suppresses thr c x"
  proof
    fix x assume "x \<in> set (nms_rec thr ?cs')"
    with sub have "x \<in> set ?cs'" by blast
    then show "\<not> suppresses thr c x" by simp
  qed
  have "sorted_wrt (\<lambda>a b. \<not> suppresses thr a b) (c # nms_rec thr ?cs')"
    unfolding sorted_wrt.simps using h "2.IH" by blast
  then show ?case by (simp only: nms_rec.simps)
qed

lemma nms_rec_id:
  "sorted_wrt (\<lambda>a b. \<not> suppresses thr a b) cs \<Longrightarrow> nms_rec thr cs = cs"
proof (induction thr cs rule: nms_rec.induct)
  case (1 thr)
  then show ?case by simp
next
  case (2 thr c cs)
  from "2.prems" have hd: "\<forall>d \<in> set cs. \<not> suppresses thr c d"
    and tl: "sorted_wrt (\<lambda>a b. \<not> suppresses thr a b) cs"
    unfolding sorted_wrt.simps by blast+
  have f: "filter (\<lambda>d. \<not> suppresses thr c d) cs = cs"
    using hd by (simp only: filter_id_conv)
  have "nms_rec thr (filter (\<lambda>d. \<not> suppresses thr c d) cs) = cs"
    using "2.IH" tl unfolding f by blast
  then show ?case by (simp only: nms_rec.simps)
qed

lemma length_nms_rec: "length (nms_rec thr cs) \<le> length cs"
proof (induction thr cs rule: nms_rec.induct)
  case (1 thr)
  then show ?case by simp
next
  case (2 thr c cs)
  have "length (nms_rec thr (filter (\<lambda>d. \<not> suppresses thr c d) cs)) \<le> length (filter (\<lambda>d. \<not> suppresses thr c d) cs)"
    by (rule "2.IH")
  also have "\<dots> \<le> length cs" by simp
  finally show ?case by simp
qed

text \<open>Candidates that share one box of positive area.\<close>

lemma iou_val_self:
  assumes "box_in_range (x1, y1, x2, y2)" "x1 < x2" "y1 < y2"
  shows "iou_val (x1, y1, x2, y2) (x1, y1, x2, y2) = 1"
proof -
  have "0 < (x2 - x1) * (y2 - y1)" using assms(2,3) by simp
  then have "bbox_iou (x1, y1, x2, y2) (x1, y1, x2, y2) = Inr 1"
    using assms(2,3) unfolding bbox_iou_in_range [OF assms(1) assms(1)]
    by (simp add: Let_def truediv_def)
  then show ?thesis by (simp add: iou_val_def del: bbox_iou.simps)
qed

lemma same_box_filter:
  assumes "\<forall>d \<in> set cs. bbox d = b \<longrightarrow> Q d = q"
  shows "filter (\<lambda>d. bbox d = b) (filter Q cs) = (if q then filter (\<lambda>d. bbox d = b) cs else [])"
  using assms by (induction cs) auto

lemma filter_nms_rec_empty:
  "filter P cs = [] \<Longrightarrow> filter P (nms_rec thr cs) = []"
  using set_nms_rec [of thr cs] unfolding filter_empty_conv by blast

lemma nms_rec_same_box:
  assumes "thr < 1" "x1 < x2" "y1 < y2" "box_in_range (x1, y1, x2, y2)"
  shows "filter (\<lambda>c. bbox c = (x1, y1, x2, y2)) (nms_rec thr cs) = []
       \<or> filter (\<lambda>c. bbox c = (x1, y1, x2, y2)) (nms_rec thr cs)
           = [hd (filter (\<lambda>c. bbox c = (x1, y1, x2, y2)) cs)]"
  using assms(1)
proof (induction thr cs rule: nms_rec.induct)
  case (1 thr)
  then show ?case by simp
next
  case (2 thr' c cs)
  let ?b = "(x1, y1, x2, y2)"
  let ?P = "\<lambda>c. bbox c = ?b"
  let ?Q = "\<lambda>d. \<not> suppresses thr' c d"
  let ?cs' = "filter ?Q cs"
  have ih: "filter ?P (nms_rec thr' ?cs') = [] \<or> filter ?P (nms_rec thr' ?cs') = [hd (filter ?P ?cs')]"
    using "2.prems" by (rule "2.IH")
  have rec: "nms_rec thr' (c # cs) = c # nms_rec thr' ?cs'"
    by (simp only: nms_rec.simps)
  have same: "\<forall>d \<in> set cs. bbox d = ?b \<longrightarrow> ?Q d = (\<not> iou_val (bbox c) ?b > thr')"
    by (simp add: suppresses_def)
  have fcs: "filter ?P ?cs' = (if \<not> iou_val (bbox c) ?b > thr' then filter ?P cs else [])"
    using same by (rule same_box_filter)
  show ?case
  proof (cases "bbox c = ?b")
    case True
    have "iou_val (bbox c) ?b = 1"
      using True assms(2,3,4) by (simp add: iou_val_self del: box_in_range.simps)
    then have "iou_val (bbox c) ?b > thr'"
      using "2.prems" by simp
    then have "filter ?P ?cs' = []" using fcs by simp
    then have "filter ?P (nms_rec thr' ?cs') = []" by (rule filter_nms_rec_empty)
    then show ?thesis using True unfolding rec by simp
  next
    case False
    show ?thesis
    proof (cases "iou_val (bbox c) ?b > thr'")
      case True
      then have "filter ?P ?cs' = []" using fcs by simp
      then have "filter ?P (nms_rec thr' ?cs') = []" by (rule filter_nms_rec_empty)
      then show ?thesis using False unfolding rec by simp
    next
      case nsup: False
      then have "filter ?P ?cs' = filter ?P cs" using fcs by simp
      then show ?thesis using ih False unfolding rec by simp
    qed
  qed
qed

lemma nms_rec_survives:
  "\<forall>p \<in> set pre. \<not> suppresses thr p c \<Longrightarrow> c \<in> set (nms_rec thr (pre @ c # post))"
proof (induction "length pre" arbitrary: pre post rule: less_induct)
  case less
  show ?case
  proof (cases pre)
    case Nil
    then show ?thesis by simp
  next
    case (Cons p pre')
    let ?F = "\<lambda>d. \<not> suppresses thr p d"
    have keep: "?F c" using less.prems Cons by simp
    have "nms_rec thr (pre @ c # post) = p # nms_rec thr (filter ?F pre' @ c # filter ?F post)"
      using keep Cons by simp
    moreover have "c \<in> set (nms_rec thr (filter ?F pre' @ c # filter ?F post))"
    proof (rule less.hyps)
      show "length (filter ?F pre') < length pre"
        using Cons by (simp add: less_Suc_eq_le)
      show "\<forall>p \<in> set (filter ?F pre'). \<not> suppresses thr p c"
        using less.prems Cons by simp
    qed
    ultimately show ?thesis by simp
  qed
qed

lemma sorted_wrt_hd_filter:
  assumes "sorted_wrt R cs" "d \<in> set cs" "P d" "\<And>x. R x x"
  shows "R (hd (filter P cs)) d"
proof -
  have s: "sorted_wrt R (filter P cs)" using assms(1) by (rule sorted_wrt_filter)
  have m: "d \<in> set (filter P cs)" using assms(2,3) by simp
  then obtain x xs where e: "filter P cs = x # xs" by (cases "filter P cs") auto
  then show ?thesis using s m assms(4) by auto
qed


lemma not_suppresses_iff:
  "(\<not> suppresses thr a b) = (\<exists>v. bbox_iou (bbox a) (bbox b) = Inr v \<and> v \<le> thr)"
  by (simp add: suppresses_def bbox_iou_iou_val not_less)

text \<open>
  Claim C6, as amended. When the IoU of every pair of candidates is at most the threshold
  (in particular below it), \<open>nms\<close> returns its input unchanged. For a box of positive
  area with coordinates at most \<open>2^29\<close> in absolute value (so that its \<open>int64\<close> area
  does not wrap) and a threshold below 1, at most one of the candidates with that box
  survives,
  and a survivor is the first of them in the input; on similarity-sorted input no other
  of them has a higher similarity. Exactly one survives, the first, when no candidate
  before it overlaps it by more than the threshold.
\<close>

theorem nms_unchanged_or_one_per_box:
  "((\<forall>i j. i < j \<and> j < length cs \<longrightarrow>
        (\<exists>v. bbox_iou (bbox (cs ! i)) (bbox (cs ! j)) = Inr v \<and> v \<le> thr))
      \<longrightarrow> nms thr cs = Inr cs)
   \<and> (thr < 1 \<and> x1 < x2 \<and> y1 < y2 \<and> box_in_range (x1, y1, x2, y2) \<longrightarrow>
        (\<exists>out. nms thr cs = Inr out
           \<and> length (filter (\<lambda>d. bbox d = (x1, y1, x2, y2)) out) \<le> 1
           \<and> (\<forall>s \<in> set out. bbox s = (x1, y1, x2, y2) \<longrightarrow>
                 s = hd (filter (\<lambda>d. bbox d = (x1, y1, x2, y2)) cs)
                 \<and> (sorted_wrt (\<lambda>a b. similarity a \<ge> similarity b) cs \<longrightarrow>
                      (\<forall>d \<in> set cs. bbox d = (x1, y1, x2, y2) \<longrightarrow> similarity d \<le> similarity s)))))
   \<and> (thr < 1 \<and> x1 < x2 \<and> y1 < y2 \<and> box_in_range (x1, y1, x2, y2)
        \<and> bbox c = (x1, y1, x2, y2)
        \<and> (\<forall>p \<in> set pre. bbox p \<noteq> (x1, y1, x2, y2)
               \<and> (\<exists>v. bbox_iou (bbox p) (bbox c) = Inr v \<and> v \<le> thr))
      \<longrightarrow> (\<exists>out. nms thr (pre @ c # post) = Inr out
             \<and> filter (\<lambda>d. bbox d = (x1, y1, x2, y2)) out = [c]))"
proof (intro conjI impI)
  assume "\<forall>i j. i < j \<and> j < length cs \<longrightarrow>
        (\<exists>v. bbox_iou (bbox (cs ! i)) (bbox (cs ! j)) = Inr v \<and> v \<le> thr)"
  then have "sorted_wrt (\<lambda>a b. \<not> suppresses thr a b) cs"
    unfolding sorted_wrt_iff_nth_less not_suppresses_iff by blast
  then show "nms thr cs = Inr cs"
    by (simp add: nms_eq nms_rec_id)
next
  let ?b = "(x1, y1, x2, y2)"
  let ?P = "\<lambda>d. bbox d = ?b"
  let ?out = "nms_rec thr cs"
  assume a: "thr < 1 \<and> x1 < x2 \<and> y1 < y2 \<and> box_in_range (x1, y1, x2, y2)"
  then have sb: "filter ?P ?out = [] \<or> filter ?P ?out = [hd (filter ?P cs)]"
    using nms_rec_same_box by blast
  have len: "length (filter ?P ?out) \<le> 1"
    using sb by auto
  have surv: "\<forall>s \<in> set ?out. bbox s = ?b \<longrightarrow>
                 s = hd (filter ?P cs)
                 \<and> (sorted_wrt (\<lambda>a b. similarity a \<ge> similarity b) cs \<longrightarrow>
                      (\<forall>d \<in> set cs. bbox d = ?b \<longrightarrow> similarity d \<le> similarity s))"
  proof (intro ballI impI conjI)
    fix s assume s: "s \<in> set ?out" "bbox s = ?b"
    then have sin: "s \<in> set (filter ?P ?out)" by simp
    then have "filter ?P ?out \<noteq> []" by (metis empty_iff list.set(1))
    with sb have "filter ?P ?out = [hd (filter ?P cs)]" by blast
    with \<open>s \<in> set (filter ?P ?out)\<close> show e: "s = hd (filter ?P cs)" by simp
    fix d assume "sorted_wrt (\<lambda>a b. similarity a \<ge> similarity b) cs" "d \<in> set cs" "bbox d = ?b"
    then have "similarity (hd (filter ?P cs)) \<ge> similarity d"
      by (rule sorted_wrt_hd_filter [where R = "\<lambda>a b. similarity a \<ge> similarity b"]) simp
    then show "similarity d \<le> similarity s" using e by simp
  qed
  show "\<exists>out. nms thr cs = Inr out
           \<and> length (filter ?P out) \<le> 1
           \<and> (\<forall>s \<in> set out. bbox s = ?b \<longrightarrow>
                 s = hd (filter ?P cs)
                 \<and> (sorted_wrt (\<lambda>a b. similarity a \<ge> similarity b) cs \<longrightarrow>
                      (\<forall>d \<in> set cs. bbox d = ?b \<longrightarrow> similarity d \<le> similarity s)))"
    using len surv nms_eq by blast
next
  let ?b = "(x1, y1, x2, y2)"
  let ?P = "\<lambda>d. bbox d = ?b"
  let ?cs = "pre @ c # post"
  assume a: "thr < 1 \<and> x1 < x2 \<and> y1 < y2 \<and> box_in_range (x1, y1, x2, y2)
        \<and> bbox c = ?b
        \<and> (\<forall>p \<in> set pre. bbox p \<noteq> ?b
               \<and> (\<exists>v. bbox_iou (bbox p) (bbox c) = Inr v \<and> v \<le> thr))"
  then have "\<forall>p \<in> set pre. \<not> suppresses thr p c"
    unfolding not_suppresses_iff by blast
  then have m: "c \<in> set (nms_rec thr ?cs)"
    by (rule nms_rec_survives)
  have hd: "hd (filter ?P ?cs) = c"
    using a by (simp add: filter_empty_conv [THEN iffD2])
  have "filter ?P (nms_rec thr ?cs) = [] \<or> filter ?P (nms_rec thr ?cs) = [hd (filter ?P ?cs)]"
    using a nms_rec_same_box by blast
  moreover have "c \<in> set (filter ?P (nms_rec thr ?cs))"
    using m a by simp
  then have "filter ?P (nms_rec thr ?cs) \<noteq> []" by (metis empty_iff list.set(1))
  ultimately have "filter ?P (nms_rec thr ?cs) = [c]"
    using hd by simp
  then show "\<exists>out. nms thr ?cs = Inr out \<and> filter ?P out = [c]"
    using nms_eq by blast
qed


theorem nms_unchanged_or_one_per_box_witness:
  "nms (1 / 2) [cand (0, 0, 2, 2) (9 / 10), cand (5, 5, 7, 7) (8 / 10)]
     = Inr [cand (0, 0, 2, 2) (9 / 10), cand (5, 5, 7, 7) (8 / 10)]
   \<and> box_in_range (0, 0, 2, 2)
   \<and> (\<exists>out. nms (1 / 2) [cand (0, 0, 2, 2) (9 / 10), cand (0, 0, 2, 2) (8 / 10)] = Inr out
          \<and> length (filter (\<lambda>d. bbox d = (0, 0, 2, 2)) out) \<le> 1)
   \<and> (\<exists>out. nms (1 / 2) ([cand (5, 5, 7, 7) (95 / 100)] @ cand (0, 0, 2, 2) (9 / 10)
                              # [cand (0, 0, 2, 2) (8 / 10)]) = Inr out
          \<and> filter (\<lambda>d. bbox d = (0, 0, 2, 2)) out = [cand (0, 0, 2, 2) (9 / 10)])"
proof (intro conjI)
  let ?cs = "[cand (0, 0, 2, 2) (9 / 10), cand (5, 5, 7, 7) (8 / 10)]"
  have "\<forall>i j. i < j \<and> j < length ?cs \<longrightarrow>
          (\<exists>v. bbox_iou (bbox (?cs ! i)) (bbox (?cs ! j)) = Inr v \<and> v \<le> 1 / 2)"
  proof (intro allI impI)
    fix i j :: nat
    assume "i < j \<and> j < length ?cs"
    then have "i = 0" "j = 1" by auto
    then show "\<exists>v. bbox_iou (bbox (?cs ! i)) (bbox (?cs ! j)) = Inr v \<and> v \<le> 1 / 2"
      by (simp add: cand_def Let_def truediv_def wrap64_def)
  qed
  then show "nms (1 / 2) ?cs = Inr ?cs"
    using nms_unchanged_or_one_per_box [where cs = ?cs and thr = "1 / 2"] by blast
next
  show "box_in_range (0, 0, 2, 2)" by simp
next
  have "(1 / 2 :: real) < 1 \<and> (0::int) < 2 \<and> (0::int) < 2 \<and> box_in_range (0, 0, 2, 2)"
    by simp
  then show "\<exists>out. nms (1 / 2) [cand (0, 0, 2, 2) (9 / 10), cand (0, 0, 2, 2) (8 / 10)] = Inr out
          \<and> length (filter (\<lambda>d. bbox d = (0, 0, 2, 2)) out) \<le> 1"
    using nms_unchanged_or_one_per_box
      [where cs = "[cand (0, 0, 2, 2) (9 / 10), cand (0, 0, 2, 2) (8 / 10)]" and thr = "1 / 2"
         and ?x1.0 = 0 and ?y1.0 = 0 and ?x2.0 = 2 and ?y2.0 = 2]
    by blast
next
  let ?pre = "[cand (5, 5, 7, 7) (95 / 100)]"
  let ?c = "cand (0, 0, 2, 2) (9 / 10)"
  have "(1 / 2 :: real) < 1 \<and> (0::int) < 2 \<and> (0::int) < 2 \<and> box_in_range (0, 0, 2, 2)
        \<and> bbox ?c = (0, 0, 2, 2)
        \<and> (\<forall>p \<in> set ?pre. bbox p \<noteq> (0, 0, 2, 2)
               \<and> (\<exists>v. bbox_iou (bbox p) (bbox ?c) = Inr v \<and> v \<le> 1 / 2))"
    by (simp add: cand_def Let_def truediv_def wrap64_def)
  then show "\<exists>out. nms (1 / 2) (?pre @ ?c # [cand (0, 0, 2, 2) (8 / 10)]) = Inr out
          \<and> filter (\<lambda>d. bbox d = (0, 0, 2, 2)) out = [?c]"
    using nms_unchanged_or_one_per_box
      [where pre = ?pre and c = ?c and post = "[cand (0, 0, 2, 2) (8 / 10)]" and thr = "1 / 2"
         and ?x1.0 = 0 and ?y1.0 = 0 and ?x2.0 = 2 and ?y2.0 = 2]
    by blast
qed

text \<open>
  Claim C6 as stated fails on three candidates with one box: the first suppresses both
  others, so of the second and the third, which share a box, none survives.
\<close>

theorem nms_three_identical_counterexample:
  "nms (1 / 2) [cand (0, 0, 2, 2) (9 / 10), cand (0, 0, 2, 2) (8 / 10), cand (0, 0, 2, 2) (7 / 10)]
     = Inr [cand (0, 0, 2, 2) (9 / 10)]"
  by (simp add: nms_eq suppresses_def iou_val_def cand_def Let_def truediv_def wrap64_def)

text \<open>Two candidates with the same zero-area box both survive: their IoU is 0.\<close>

lemma nms_degenerate_identical:
  "nms (1 / 2) [cand (0, 0, 0, 0) (9 / 10), cand (0, 0, 0, 0) (8 / 10)]
     = Inr [cand (0, 0, 0, 0) (9 / 10), cand (0, 0, 0, 0) (8 / 10)]"
  by (simp add: nms_eq suppresses_def iou_val_def cand_def Let_def truediv_def wrap64_def)

text \<open>So do two candidates with the same box of side \<open>2^32\<close>, whose \<open>int64\<close> area wraps
  to 0.\<close>

lemma nms_wrapped_identical:
  "nms (1 / 2) [cand (0, 0, 2 ^ 32, 2 ^ 32) (9 / 10), cand (0, 0, 2 ^ 32, 2 ^ 32) (8 / 10)]
     = Inr [cand (0, 0, 2 ^ 32, 2 ^ 32) (9 / 10), cand (0, 0, 2 ^ 32, 2 ^ 32) (8 / 10)]"
  by (simp add: nms_eq suppresses_def iou_val_def cand_def Let_def truediv_def wrap64_def)


subsection \<open>The example scene, evaluated\<close>

lemma upt2: "[0..<2] = [0, 1]" by (simp add: upt_rec)
lemma upt3: "[0..<3] = [0, 1, 2]" by (simp add: upt_rec)
lemma upt4: "[0..<4] = [0, 1, 2, 3]" by (simp add: upt_rec)

lemma demo_interp1:
  "interpolate_bilinear (astype_float demo_mask1) 2 2 = Inr [[1, 1 / 4], [0, 0]]"
  by (simp add: interpolate_bilinear_def bilinear_at_def source_index_def astype_float_def
      ncols_def Let_def upt2 demo_mask1_def)

lemma demo_interp2:
  "interpolate_bilinear (astype_float demo_mask2) 2 2 = Inr [[1 / 4, 3 / 4], [0, 0]]"
  by (simp add: interpolate_bilinear_def bilinear_at_def source_index_def astype_float_def
      ncols_def Let_def upt2 demo_mask2_def)

lemma demo_interp3:
  "interpolate_bilinear (astype_float demo_mask3) 2 2 = Inr [[0, 0], [1, 0]]"
  by (simp add: interpolate_bilinear_def bilinear_at_def source_index_def astype_float_def
      ncols_def Let_def upt2 demo_mask3_def)

lemma demo_grid_shape: "length demo_grid = 2" "ncols demo_grid = 2"
  by (simp_all add: demo_grid_def ncols_def)

lemma l2_unit_1: "l2_norm [9 / 10, 3 / 10, 3 / 10, 1 / 10] = 1"
  by (simp add: l2_norm_def power2_eq_square)

lemma l2_unit_2: "l2_norm [18 / 25, 16 / 25, 6 / 25, 3 / 25] = 1"
  by (simp add: l2_norm_def power2_eq_square)

lemma l2_unit_3: "l2_norm [3 / 10, 9 / 10, 3 / 10, 1 / 10] = 1"
  by (simp add: l2_norm_def power2_eq_square)

lemma normalize_unit: "l2_norm v = 1 \<Longrightarrow> F_normalize v = v"
  by (simp add: F_normalize_def normalize_eps_def Let_def max_def)

lemma demo_embeddings:
  "compute_batch_ffa_embeddings demo_grid [demo_mask1, demo_mask2, demo_mask3]
     = Inr [[9 / 10, 3 / 10, 3 / 10, 1 / 10], [18 / 25, 16 / 25, 6 / 25, 3 / 25],
            [3 / 10, 9 / 10, 3 / 10, 1 / 10]]"
proof -
  have m: "mean_dim0 [[9 / 10, 3 / 10, 3 / 10, 1 / 10]] = [9 / 10, 3 / 10, 3 / 10, 1 / 10]"
    "mean_dim0 [[18 / 25, 16 / 25, 6 / 25, 3 / 25]] = [18 / 25, 16 / 25, 6 / 25, 3 / 25]"
    "mean_dim0 [[3 / 10, 9 / 10, 3 / 10, 1 / 10 :: real]] = [3 / 10, 9 / 10, 3 / 10, 1 / 10]"
    by (simp_all add: mean_dim0_def ncols_def upt4)
  have s: "select_patches demo_grid (binarize [[1, 1 / 4], [0, 0]]) = [[9 / 10, 3 / 10, 3 / 10, 1 / 10]]"
    "select_patches demo_grid (binarize [[1 / 4, 3 / 4], [0, 0]]) = [[18 / 25, 16 / 25, 6 / 25, 3 / 25]]"
    "select_patches demo_grid (binarize [[0, 0], [1, 0]]) = [[3 / 10, 9 / 10, 3 / 10, 1 / 10]]"
    by (simp_all add: select_patches_def binarize_def demo_grid_def)
  have c: "mask_sum (binarize [[1, 1 / 4], [0, 0]]) \<noteq> 0"
    "mask_sum (binarize [[1 / 4, 3 / 4], [0, 0]]) \<noteq> 0"
    "mask_sum (binarize [[0, 0], [1, 0]]) \<noteq> 0"
    by (simp_all add: mask_sum_def binarize_def)
  show ?thesis
    by (simp add: compute_batch_ffa_embeddings_def demo_grid_shape demo_interp1 demo_interp2
        demo_interp3 Let_def s m c normalize_unit l2_unit_1 l2_unit_2 l2_unit_3)
qed

lemma demo_similarities:
  "batch_cosine_similarity demo_reference
     [[9 / 10, 3 / 10, 3 / 10, 1 / 10], [18 / 25, 16 / 25, 6 / 25, 3 / 25],
      [3 / 10, 9 / 10, 3 / 10, 1 / 10]] = Inr [9 / 10, 18 / 25, 3 / 10]"
  by (simp add: batch_cosine_similarity_def dot_def demo_reference_def)

lemma demo_boxes:
  "mask_to_bbox demo_mask1 = Inr (0, 0, 5, 1)"
  "mask_to_bbox demo_mask2 = Inr (0, 0, 4, 1)"
  "mask_to_bbox demo_mask3 = Inr (0, 1, 2, 2)"
  by (simp_all add: mask_to_bbox_def np_any_axis1_def np_any_axis0_def np_where_def first_last_def
      ncols_def Let_def demo_mask1_def demo_mask2_def demo_mask3_def upt_rec)

lemma demo_iou: "bbox_iou (0, 0, 5, 1) (0, 0, 4, 1) = Inr (4 / 5)"
  by (simp add: Let_def truediv_def wrap64_def)


lemma demo_matcher_fields:
  "auto_segmenter demo_matcher (Suc n) = demo_proposals"
  "auto_segmenter demo_matcher 0 = [\<lparr>segmentation = [], prop_predicted_iou = 9 / 10, prop_area = 0\<rparr>]"
  "embedder demo_matcher img = demo_grid"
  "similarity_threshold demo_matcher = 13 / 20"
  "nms_iou_threshold demo_matcher = 1 / 2"
  "top_k demo_matcher = 3"
  by (simp_all add: demo_matcher_def InstanceMatcher_init_def py_or_def config_defaults_def
      demo_segmenter_def)

lemma demo_segmentations:
  "map segmentation demo_proposals = [demo_mask1, demo_mask2, demo_mask3]"
  by (simp add: demo_proposals_def)

subsection \<open>The result of one image\<close>

lemma sorted_sort_by_similarity:
  "sorted_wrt (\<lambda>a b. similarity a \<ge> similarity b) (sort_by_similarity cs)"
proof -
  have "sorted (map (\<lambda>c. - similarity c) (sort_key (\<lambda>c. - similarity c) cs))"
    by (rule sorted_sort_key)
  then show ?thesis
    by (simp add: sort_by_similarity_def sorted_map)
qed

lemma slice_to_take: "0 \<le> k \<Longrightarrow> slice_to xs k = take (nat k) xs"
  by (simp add: slice_to_def)

lemma slice_to_length: "0 \<le> k \<Longrightarrow> int (length (slice_to xs k)) \<le> k"
  by (simp add: slice_to_def)

lemma sorted_wrt_slice_to: "sorted_wrt R xs \<Longrightarrow> sorted_wrt R (slice_to xs k)"
  by (simp add: slice_to_def sorted_wrt_take)

lemma sorted_wrt_symmetric_nth:
  assumes "sorted_wrt R xs" "\<And>a b. R a b \<Longrightarrow> R b a" "i < length xs" "j < length xs" "i \<noteq> j"
  shows "R (xs ! i) (xs ! j)"
proof (cases "i < j")
  case True
  then show ?thesis using assms(1,4) by (simp add: sorted_wrt_iff_nth_less)
next
  case False
  then have "j < i" using assms(5) by simp
  then have "R (xs ! j) (xs ! i)" using assms(1,3) by (simp add: sorted_wrt_iff_nth_less)
  then show ?thesis by (rule assms(2))
qed

lemma match_in_image_matches:
  assumes "match_in_image self img R path = Inr res"
  shows "matches res = [] \<or>
         (\<exists>cands. matches res = slice_to (nms_rec (nms_iou_threshold self) (sort_by_similarity cands)) (top_k self))"
  using assms
  by (auto simp: match_in_image_def Let_def nms_eq split: if_splits sum.splits)

text \<open>
  Claim C5, as amended. Whenever \<open>match_in_image\<close> returns a result, its matches are
  ordered by similarity, descending, and no two of them have an IoU above the suppression
  threshold; when \<open>top_k\<close> is not negative there are at most \<open>top_k\<close> of them.
\<close>

theorem match_in_image_result_invariant:
  assumes "match_in_image self img R path = Inr res"
  shows "sorted_wrt (\<lambda>a b. similarity a \<ge> similarity b) (matches res)
       \<and> (0 \<le> top_k self \<longrightarrow> int (length (matches res)) \<le> top_k self)
       \<and> (\<forall>i j. i < length (matches res) \<and> j < length (matches res) \<and> i \<noteq> j \<longrightarrow>
            (\<exists>v. bbox_iou (bbox (matches res ! i)) (bbox (matches res ! j)) = Inr v
                 \<and> v \<le> nms_iou_threshold self))"
proof -
  let ?thr = "nms_iou_threshold self"
  let ?N = "\<lambda>a b. \<not> suppresses ?thr a b"
  from match_in_image_matches [OF assms(1)]
  have "sorted_wrt (\<lambda>a b. similarity a \<ge> similarity b) (matches res)
        \<and> (0 \<le> top_k self \<longrightarrow> int (length (matches res)) \<le> top_k self)
        \<and> sorted_wrt ?N (matches res)"
  proof
    assume "matches res = []"
    then show ?thesis by simp
  next
    assume "\<exists>cands. matches res = slice_to (nms_rec ?thr (sort_by_similarity cands)) (top_k self)"
    then obtain cands where m: "matches res = slice_to (nms_rec ?thr (sort_by_similarity cands)) (top_k self)"
      by blast
    have "sorted_wrt (\<lambda>a b. similarity a \<ge> similarity b) (nms_rec ?thr (sort_by_similarity cands))"
      using sorted_sort_by_similarity by (rule sorted_wrt_nms_rec)
    then have 1: "sorted_wrt (\<lambda>a b. similarity a \<ge> similarity b) (matches res)"
      unfolding m by (rule sorted_wrt_slice_to)
    have 2: "0 \<le> top_k self \<longrightarrow> int (length (matches res)) \<le> top_k self"
      unfolding m using slice_to_length by blast
    have 3: "sorted_wrt ?N (matches res)"
      unfolding m using nms_rec_not_suppressed by (rule sorted_wrt_slice_to)
    from 1 2 3 show ?thesis by blast
  qed
  then have s: "sorted_wrt (\<lambda>a b. similarity a \<ge> similarity b) (matches res)"
    and l: "0 \<le> top_k self \<longrightarrow> int (length (matches res)) \<le> top_k self"
    and n: "sorted_wrt ?N (matches res)" by blast+
  have sym: "\<And>a b. ?N a b \<Longrightarrow> ?N b a"
    by (simp add: suppresses_def iou_val_commute)
  have "\<forall>i j. i < length (matches res) \<and> j < length (matches res) \<and> i \<noteq> j \<longrightarrow>
            (\<exists>v. bbox_iou (bbox (matches res ! i)) (bbox (matches res ! j)) = Inr v \<and> v \<le> ?thr)"
  proof (intro allI impI)
    fix i j assume a: "i < length (matches res) \<and> j < length (matches res) \<and> i \<noteq> j"
    have "?N (matches res ! i) (matches res ! j)"
      using n sym a by (intro sorted_wrt_symmetric_nth [where R = ?N]) blast+
    then show "\<exists>v. bbox_iou (bbox (matches res ! i)) (bbox (matches res ! j)) = Inr v \<and> v \<le> ?thr"
      by (simp add: not_suppresses_iff)
  qed
  with s l show ?thesis by blast
qed


lemma demo_match_low_threshold:
  "match_in_image (demo_matcher\<lparr>similarity_threshold := 1 / 4\<rparr>) 1 demo_reference ''view_1.jpg''
     = Inr \<lparr>image_path = ''view_1.jpg'', image = 1,
            matches = [\<lparr>mask = demo_mask1, bbox = (0, 0, 5, 1), similarity = 9 / 10,
                        predicted_iou = 19 / 20, area = 3,
                        embedding = [9 / 10, 3 / 10, 3 / 10, 1 / 10]\<rparr>,
                       \<lparr>mask = demo_mask3, bbox = (0, 1, 2, 2), similarity = 3 / 10,
                        predicted_iou = 9 / 10, area = 2,
                        embedding = [3 / 10, 9 / 10, 3 / 10, 1 / 10]\<rparr>]\<rparr>"
proof -
  have seg: "auto_segmenter demo_matcher 1 = demo_proposals"
    using demo_matcher_fields(1) [of 0] by simp
  have ne: "demo_proposals \<noteq> []"
    by (simp add: demo_proposals_def)
  show ?thesis
    by (simp add: match_in_image_def Let_def seg ne demo_segmentations demo_matcher_fields
        demo_embeddings demo_similarities upt3 demo_proposals_def demo_boxes
        sort_by_similarity_def nms_eq suppresses_def iou_val_def truediv_def slice_to_def wrap64_def)
qed

theorem match_in_image_result_invariant_witness:
  "(\<exists>res. match_in_image (demo_matcher\<lparr>similarity_threshold := 1 / 4\<rparr>) 1 demo_reference
             ''view_1.jpg'' = Inr res
       \<and> length (matches res) = 2
       \<and> 0 \<le> top_k (demo_matcher\<lparr>similarity_threshold := 1 / 4\<rparr>)
       \<and> sorted_wrt (\<lambda>a b. similarity a \<ge> similarity b) (matches res)
       \<and> int (length (matches res)) \<le> top_k (demo_matcher\<lparr>similarity_threshold := 1 / 4\<rparr>)
       \<and> (\<exists>v. bbox_iou (bbox (matches res ! 0)) (bbox (matches res ! 1)) = Inr v
              \<and> v \<le> nms_iou_threshold (demo_matcher\<lparr>similarity_threshold := 1 / 4\<rparr>)))"
proof -
  let ?m = "demo_matcher\<lparr>similarity_threshold := 1 / 4\<rparr>"
  let ?res = "\<lparr>image_path = ''view_1.jpg'', image = 1::nat,
            matches = [\<lparr>mask = demo_mask1, bbox = (0, 0, 5, 1), similarity = 9 / 10,
                        predicted_iou = 19 / 20, area = 3,
                        embedding = [9 / 10, 3 / 10, 3 / 10, 1 / 10]\<rparr>,
                       \<lparr>mask = demo_mask3, bbox = (0, 1, 2, 2), similarity = 3 / 10,
                        predicted_iou = 9 / 10, area = 2,
                        embedding = [3 / 10, 9 / 10, 3 / 10, 1 / 10]\<rparr>]\<rparr>"
  have r: "match_in_image ?m 1 demo_reference ''view_1.jpg'' = Inr ?res"
    by (rule demo_match_low_threshold)
  have k: "0 \<le> top_k ?m"
    by (simp add: demo_matcher_fields)
  have l: "length (matches ?res) = 2" by simp
  have inv: "sorted_wrt (\<lambda>a b. similarity a \<ge> similarity b) (matches ?res)
       \<and> (0 \<le> top_k ?m \<longrightarrow> int (length (matches ?res)) \<le> top_k ?m)
       \<and> (\<forall>i j. i < length (matches ?res) \<and> j < length (matches ?res) \<and> i \<noteq> j \<longrightarrow>
            (\<exists>v. bbox_iou (bbox (matches ?res ! i)) (bbox (matches ?res ! j)) = Inr v
                 \<and> v \<le> nms_iou_threshold ?m))"
    by (rule match_in_image_result_invariant [OF r])
  then have "\<exists>v. bbox_iou (bbox (matches ?res ! 0)) (bbox (matches ?res ! 1)) = Inr v
                 \<and> v \<le> nms_iou_threshold ?m"
    using l by (metis (no_types, lifting) zero_neq_one pos2 one_less_numeral_iff semiring_norm(76))
  with r k l inv show ?thesis by blast
qed

text \<open>
  Claim C5 as stated fails for a negative \<open>top_k\<close>: the constructor keeps it (only
  \<open>None\<close> and 0 are replaced by the configured value), and the slice
  \<^verbatim>\<open>kept[:top_k]\<close> then drops entries from the end. With \<open>top_k = -1\<close> and two candidates
  left after suppression, the result has one match, which is more than \<open>top_k\<close>.
\<close>

theorem match_in_image_negative_top_k_counterexample:
  "top_k (InstanceMatcher_init config_defaults demo_segmenter (\<lambda>img. demo_grid)
            (Some (1 / 4)) (Some (- 1)) None :: nat InstanceMatcher) = - 1
   \<and> (\<exists>res. match_in_image
               (InstanceMatcher_init config_defaults demo_segmenter (\<lambda>img. demo_grid)
                  (Some (1 / 4)) (Some (- 1)) None)
               1 demo_reference ''view_1.jpg'' = Inr res
          \<and> length (matches res) = 1
          \<and> top_k (InstanceMatcher_init config_defaults demo_segmenter (\<lambda>img. demo_grid)
                     (Some (1 / 4)) (Some (- 1)) None :: nat InstanceMatcher)
              < int (length (matches res)))"
proof -
  let ?m = "InstanceMatcher_init config_defaults demo_segmenter (\<lambda>img. demo_grid)
              (Some (1 / 4)) (Some (- 1)) None :: nat InstanceMatcher"
  have f: "auto_segmenter ?m 1 = demo_proposals" "embedder ?m 1 = demo_grid"
    "similarity_threshold ?m = 1 / 4" "nms_iou_threshold ?m = 1 / 2" "top_k ?m = - 1"
    by (simp_all add: InstanceMatcher_init_def py_or_def config_defaults_def demo_segmenter_def)
  have ne: "demo_proposals \<noteq> []"
    by (simp add: demo_proposals_def)
  have "match_in_image ?m 1 demo_reference ''view_1.jpg''
     = Inr \<lparr>image_path = ''view_1.jpg'', image = 1,
            matches = [\<lparr>mask = demo_mask1, bbox = (0, 0, 5, 1), similarity = 9 / 10,
                        predicted_iou = 19 / 20, area = 3,
                        embedding = [9 / 10, 3 / 10, 3 / 10, 1 / 10]\<rparr>]\<rparr>"
    by (simp add: match_in_image_def Let_def f ne demo_segmentations
        demo_embeddings demo_similarities upt3 demo_proposals_def demo_boxes
        sort_by_similarity_def nms_eq suppresses_def iou_val_def truediv_def slice_to_def
        wrap64_def del: One_nat_def)
  then show ?thesis
    using f(5) by simp
qed


subsection \<open>The end-to-end example\<close>

text \<open>
  Claim C1. When the mask generator yields three proposals for the target image whose
  pooled descriptors have similarities 0.9, 0.72 and 0.3 to the reference, the boxes of
  the first two have IoU 0.8, the similarity threshold is 0.65, the suppression
  threshold 0.5 and \<open>top_k\<close> is 3, then \<open>match_in_image\<close> returns a result with exactly
  one match, of similarity 0.9 (the first proposal).
\<close>

theorem match_in_image_three_proposals:
  assumes "auto_segmenter self img = [p1, p2, p3]"
    and "compute_batch_ffa_embeddings (embedder self img)
           [segmentation p1, segmentation p2, segmentation p3] = Inr embs"
    and "batch_cosine_similarity R embs = Inr [9 / 10, 72 / 100, 3 / 10]"
    and "mask_to_bbox (segmentation p1) = Inr b1"
    and "mask_to_bbox (segmentation p2) = Inr b2"
    and "bbox_iou b1 b2 = Inr (8 / 10)"
    and "similarity_threshold self = 65 / 100"
    and "nms_iou_threshold self = 5 / 10"
    and "top_k self = 3"
  shows "\<exists>res. match_in_image self img R path = Inr res
           \<and> length (matches res) = 1
           \<and> similarity (hd (matches res)) = 9 / 10
           \<and> mask (hd (matches res)) = segmentation p1"
proof -
  from assms(3) have "length embs = 3"
    by (auto simp: batch_cosine_similarity_def split: if_splits dest: arg_cong [where f = length])
  then obtain e1 e2 e3 where embs: "embs = [e1, e2, e3]"
    by (auto simp: length_Suc_conv eval_nat_numeral)
  let ?c1 = "\<lparr>mask = segmentation p1, bbox = b1, similarity = 9 / 10,
              predicted_iou = prop_predicted_iou p1, area = prop_area p1, embedding = e1\<rparr>"
  have sims: "batch_cosine_similarity R [e1, e2, e3] = Inr [9 / 10, 18 / 25, 3 / 10]"
    using assms(3) by (simp add: embs)
  have st: "similarity_threshold self = 13 / 20" using assms(7) by simp
  have nt: "nms_iou_threshold self = 1 / 2" using assms(8) by simp
  have "match_in_image self img R path
          = Inr \<lparr>image_path = path, image = img, matches = [?c1]\<rparr>"
    by (simp add: match_in_image_def Let_def slice_to_def assms(1,2,4,5,6,9) sims st nt embs
        upt3 sort_by_similarity_def nms_eq suppresses_def iou_val_def)
  then show ?thesis by simp
qed


theorem match_in_image_three_proposals_witness:
  "auto_segmenter demo_matcher 1 = demo_proposals
   \<and> compute_batch_ffa_embeddings (embedder demo_matcher 1) (map segmentation demo_proposals)
       = Inr [[9 / 10, 3 / 10, 3 / 10, 1 / 10], [18 / 25, 16 / 25, 6 / 25, 3 / 25],
              [3 / 10, 9 / 10, 3 / 10, 1 / 10]]
   \<and> batch_cosine_similarity demo_reference
         [[9 / 10, 3 / 10, 3 / 10, 1 / 10], [18 / 25, 16 / 25, 6 / 25, 3 / 25],
          [3 / 10, 9 / 10, 3 / 10, 1 / 10]] = Inr [9 / 10, 72 / 100, 3 / 10]
   \<and> mask_to_bbox demo_mask1 = Inr (0, 0, 5, 1)
   \<and> mask_to_bbox demo_mask2 = Inr (0, 0, 4, 1)
   \<and> bbox_iou (0, 0, 5, 1) (0, 0, 4, 1) = Inr (8 / 10)
   \<and> similarity_threshold demo_matcher = 65 / 100
   \<and> nms_iou_threshold demo_matcher = 5 / 10
   \<and> top_k demo_matcher = 3
   \<and> (\<exists>res. match_in_image demo_matcher 1 demo_reference ''view_1.jpg'' = Inr res
          \<and> length (matches res) = 1
          \<and> similarity (hd (matches res)) = 9 / 10
          \<and> mask (hd (matches res)) = demo_mask1)"
proof -
  let ?p1 = "\<lparr>segmentation = demo_mask1, prop_predicted_iou = 19 / 20, prop_area = 3\<rparr>"
  let ?p2 = "\<lparr>segmentation = demo_mask2, prop_predicted_iou = 9 / 10, prop_area = 2\<rparr>"
  let ?p3 = "\<lparr>segmentation = demo_mask3, prop_predicted_iou = 9 / 10, prop_area = 2\<rparr>"
  let ?embs = "[[9 / 10, 3 / 10, 3 / 10, 1 / 10], [18 / 25, 16 / 25, 6 / 25, 3 / 25],
              [3 / 10, 9 / 10, 3 / 10, 1 / 10 :: real]]"
  have h1: "auto_segmenter demo_matcher 1 = [?p1, ?p2, ?p3]"
    using demo_matcher_fields(1) [of 0] by (simp add: demo_proposals_def)
  have h2: "compute_batch_ffa_embeddings (embedder demo_matcher 1)
              [segmentation ?p1, segmentation ?p2, segmentation ?p3] = Inr ?embs"
    by (simp add: demo_matcher_fields demo_embeddings)
  have h3: "batch_cosine_similarity demo_reference ?embs = Inr [9 / 10, 72 / 100, 3 / 10]"
    using demo_similarities by simp
  have h4: "mask_to_bbox (segmentation ?p1) = Inr (0, 0, 5, 1)"
    and h5: "mask_to_bbox (segmentation ?p2) = Inr (0, 0, 4, 1)"
    by (simp_all add: demo_boxes)
  have h6: "bbox_iou (0, 0, 5, 1) (0, 0, 4, 1) = Inr (8 / 10)"
    using demo_iou by simp
  have h7: "similarity_threshold demo_matcher = 65 / 100"
    and h8: "nms_iou_threshold demo_matcher = 5 / 10"
    and h9: "top_k demo_matcher = 3"
    by (simp_all add: demo_matcher_fields)
  from match_in_image_three_proposals [OF h1 h2 h3 h4 h5 h6 h7 h8 h9, of "''view_1.jpg''"]
  have "\<exists>res. match_in_image demo_matcher 1 demo_reference ''view_1.jpg'' = Inr res
          \<and> length (matches res) = 1
          \<and> similarity (hd (matches res)) = 9 / 10
          \<and> mask (hd (matches res)) = demo_mask1"
    by simp
  then show ?thesis
    using h1 h2 h3 h4 h5 h6 h7 h8 h9 by (simp add: demo_proposals_def)
qed


subsection \<open>The similarity filter\<close>

lemma collect_candidates_raise:
  "collect_candidates t1 embs xs acc = Inr res \<Longrightarrow> t1 \<le> t2 \<Longrightarrow>
   collect_candidates t2 embs xs (filter (\<lambda>c. similarity c \<ge> t2) acc)
     = Inr (filter (\<lambda>c. similarity c \<ge> t2) res)"
proof (induction t1 embs xs acc rule: collect_candidates.induct)
  case (1 thr embs acc)
  then show ?case by simp
next
  case (2 thr embs i sim p rest acc)
  show ?case
  proof (cases "sim \<ge> thr")
    case True
    then obtain b where b: "mask_to_bbox (segmentation p) = Inr b"
      using "2.prems"(1) by (auto split: sum.splits)
    have i: "i < length embs"
      using "2.prems"(1) True b by (auto split: if_splits)
    let ?c = "\<lparr>mask = segmentation p, bbox = b, similarity = sim,
                predicted_iou = prop_predicted_iou p, area = prop_area p,
                embedding = embs ! i\<rparr>"
    have "collect_candidates thr embs rest (acc @ [?c]) = Inr res"
      using "2.prems"(1) True b i by simp
    then have ih: "collect_candidates t2 embs rest (filter (\<lambda>c. similarity c \<ge> t2) (acc @ [?c]))
        = Inr (filter (\<lambda>c. similarity c \<ge> t2) res)"
      using "2.IH"(1) [OF True b i] "2.prems"(2) by simp
    show ?thesis
    proof (cases "sim \<ge> t2")
      case True
      then show ?thesis using ih b i by simp
    next
      case False
      then show ?thesis using ih by simp
    qed
  next
    case False
    then have "\<not> sim \<ge> t2" using "2.prems"(2) by simp
    then show ?thesis using False "2.IH"(2) "2.prems" by simp
  qed
qed

text \<open>
  Claim C8. The similarity filter (step 4 of \<open>match_in_image\<close>) is monotone in its
  threshold: for thresholds \<open>t1 \<le> t2\<close>, what is retained at \<open>t2\<close> is what is retained at
  \<open>t1\<close> restricted to similarity at least \<open>t2\<close>, so every candidate retained at \<open>t2\<close> is
  retained at \<open>t1\<close> and raising the threshold never increases the number retained.
\<close>

theorem similarity_filter_monotone:
  assumes "t1 \<le> t2"
    and "collect_candidates t1 embs xs [] = Inr c1"
  shows "\<exists>c2. collect_candidates t2 embs xs [] = Inr c2
           \<and> c2 = filter (\<lambda>c. similarity c \<ge> t2) c1
           \<and> set c2 \<subseteq> set c1
           \<and> length c2 \<le> length c1"
  using collect_candidates_raise [OF assms(2,1)] by simp

theorem similarity_filter_monotone_witness:
  "(13 / 20 :: real) \<le> 4 / 5
   \<and> collect_candidates (13 / 20) [[1], [2], [3]]
        (zip [0..<3] (zip [9 / 10, 18 / 25, 3 / 10] demo_proposals)) []
       = Inr [\<lparr>mask = demo_mask1, bbox = (0, 0, 5, 1), similarity = 9 / 10,
               predicted_iou = 19 / 20, area = 3, embedding = [1]\<rparr>,
              \<lparr>mask = demo_mask2, bbox = (0, 0, 4, 1), similarity = 18 / 25,
               predicted_iou = 9 / 10, area = 2, embedding = [2]\<rparr>]
   \<and> collect_candidates (4 / 5) [[1], [2], [3]]
        (zip [0..<3] (zip [9 / 10, 18 / 25, 3 / 10] demo_proposals)) []
       = Inr [\<lparr>mask = demo_mask1, bbox = (0, 0, 5, 1), similarity = 9 / 10,
               predicted_iou = 19 / 20, area = 3, embedding = [1]\<rparr>]"
proof -
  have le: "(13 / 20 :: real) \<le> 4 / 5" by simp
  have c1: "collect_candidates (13 / 20) [[1], [2], [3]]
        (zip [0..<3] (zip [9 / 10, 18 / 25, 3 / 10] demo_proposals)) []
       = Inr [\<lparr>mask = demo_mask1, bbox = (0, 0, 5, 1), similarity = 9 / 10,
               predicted_iou = 19 / 20, area = 3, embedding = [1]\<rparr>,
              \<lparr>mask = demo_mask2, bbox = (0, 0, 4, 1), similarity = 18 / 25,
               predicted_iou = 9 / 10, area = 2, embedding = [2]\<rparr>]"
    by (simp add: upt3 demo_proposals_def demo_boxes)
  from similarity_filter_monotone [OF le c1] le c1 show ?thesis
    by simp
qed


subsection \<open>The constructor\<close>

text \<open>
  Claim C10. The constructor treats a falsy argument as unset: 0 for any of the three
  parameters gives the same matcher as \<open>None\<close>, namely the value of the module
  configuration (3, 0.65 and 0.5 when the environment sets nothing); so when the
  configured value is not zero, no argument makes the matcher's parameter zero.
\<close>

theorem InstanceMatcher_init_falsy:
  "InstanceMatcher_init cfg seg bb (Some 0) (Some 0) (Some 0)
     = InstanceMatcher_init cfg seg bb None None None
   \<and> similarity_threshold (InstanceMatcher_init cfg seg bb (Some 0) tk nt) = SIMILARITY_THRESHOLD cfg
   \<and> top_k (InstanceMatcher_init cfg seg bb st (Some 0) nt) = TOP_K_MATCHES cfg
   \<and> nms_iou_threshold (InstanceMatcher_init cfg seg bb st tk (Some 0)) = NMS_IOU_THRESHOLD cfg
   \<and> top_k (InstanceMatcher_init config_defaults seg bb st (Some 0) nt) = 3
   \<and> top_k (InstanceMatcher_init config_defaults seg bb st None nt) = 3
   \<and> similarity_threshold (InstanceMatcher_init config_defaults seg bb (Some 0) tk nt) = 65 / 100
   \<and> nms_iou_threshold (InstanceMatcher_init config_defaults seg bb st tk (Some 0)) = 5 / 10
   \<and> (SIMILARITY_THRESHOLD cfg \<noteq> 0 \<longrightarrow>
         similarity_threshold (InstanceMatcher_init cfg seg bb st tk nt) \<noteq> 0)
   \<and> (TOP_K_MATCHES cfg \<noteq> 0 \<longrightarrow> top_k (InstanceMatcher_init cfg seg bb st tk nt) \<noteq> 0)
   \<and> (NMS_IOU_THRESHOLD cfg \<noteq> 0 \<longrightarrow>
         nms_iou_threshold (InstanceMatcher_init cfg seg bb st tk nt) \<noteq> 0)"
  by (simp add: InstanceMatcher_init_def py_or_def config_defaults_def split: option.splits)

theorem InstanceMatcher_init_falsy_witness:
  "SIMILARITY_THRESHOLD config_defaults \<noteq> 0
   \<and> TOP_K_MATCHES config_defaults \<noteq> 0
   \<and> NMS_IOU_THRESHOLD config_defaults \<noteq> 0
   \<and> similarity_threshold (InstanceMatcher_init config_defaults demo_segmenter (\<lambda>img. demo_grid)
         (Some 0) (Some 0) (Some 0)) \<noteq> 0
   \<and> top_k (InstanceMatcher_init config_defaults demo_segmenter (\<lambda>img. demo_grid)
         (Some 0) (Some 0) (Some 0)) \<noteq> 0
   \<and> nms_iou_threshold (InstanceMatcher_init config_defaults demo_segmenter (\<lambda>img. demo_grid)
         (Some 0) (Some 0) (Some 0)) \<noteq> 0
   \<and> top_k (InstanceMatcher_init config_defaults demo_segmenter (\<lambda>img. demo_grid)
         (Some 0) (Some 0) (Some 0)) = 3"
proof -
  have c: "SIMILARITY_THRESHOLD config_defaults \<noteq> 0" "TOP_K_MATCHES config_defaults \<noteq> 0"
    "NMS_IOU_THRESHOLD config_defaults \<noteq> 0"
    by (simp_all add: config_defaults_def)
  from InstanceMatcher_init_falsy
    [where cfg = config_defaults and seg = demo_segmenter and bb = "\<lambda>img. demo_grid"
       and st = "Some 0" and tk = "Some 0" and nt = "Some 0"] c
  show ?thesis by blast
qed


subsection \<open>Pooling and normalisation\<close>


lemma sumsq_nonneg: "0 \<le> sum_list (map (\<lambda>x. x\<^sup>2) (v :: real list))"
  by (induction v) simp_all

lemma l2_norm_nonneg: "0 \<le> l2_norm v"
  by (simp add: l2_norm_def sumsq_nonneg)



























subsection \<open>Failures across candidates and images\<close>

lemma match_loop_all_ok:
  "\<forall>k < length imgs. \<exists>r. match_in_image self (snd (imgs ! k)) R (fst (imgs ! k)) = Inr r \<Longrightarrow>
   \<exists>rs. match_loop self imgs R acc = Inr (acc @ rs) \<and> length rs = length imgs
      \<and> (\<forall>k < length imgs. match_in_image self (snd (imgs ! k)) R (fst (imgs ! k)) = Inr (rs ! k))"
proof (induction imgs arbitrary: acc)
  case Nil
  then show ?case by simp
next
  case (Cons x imgs)
  obtain p i where x: "x = (p, i)" by (cases x)
  from Cons.prems have "\<exists>r. match_in_image self (snd ((x # imgs) ! 0)) R (fst ((x # imgs) ! 0)) = Inr r"
    by blast
  then obtain r where r: "match_in_image self i R p = Inr r"
    using x by auto
  have "\<forall>k < length imgs. \<exists>r. match_in_image self (snd (imgs ! k)) R (fst (imgs ! k)) = Inr r"
  proof (intro allI impI)
    fix k assume "k < length imgs"
    then have "Suc k < length (x # imgs)" by simp
    with Cons.prems have "\<exists>r. match_in_image self (snd ((x # imgs) ! Suc k)) R (fst ((x # imgs) ! Suc k)) = Inr r"
      by blast
    then show "\<exists>r. match_in_image self (snd (imgs ! k)) R (fst (imgs ! k)) = Inr r" by simp
  qed
  from Cons.IH [OF this, of "acc @ [r]"]
  obtain rs where rs: "match_loop self imgs R (acc @ [r]) = Inr ((acc @ [r]) @ rs)"
      "length rs = length imgs"
      "\<forall>k < length imgs. match_in_image self (snd (imgs ! k)) R (fst (imgs ! k)) = Inr (rs ! k)"
    by blast
  have 1: "match_loop self (x # imgs) R acc = Inr (acc @ (r # rs))"
    using x r rs(1) by simp
  have 2: "length (r # rs) = length (x # imgs)" using rs(2) by simp
  have 3: "\<forall>k < length (x # imgs).
            match_in_image self (snd ((x # imgs) ! k)) R (fst ((x # imgs) ! k)) = Inr ((r # rs) ! k)"
  proof (intro allI impI)
    fix k assume k: "k < length (x # imgs)"
    show "match_in_image self (snd ((x # imgs) ! k)) R (fst ((x # imgs) ! k)) = Inr ((r # rs) ! k)"
    proof (cases k)
      case 0
      then show ?thesis using x r by simp
    next
      case (Suc j)
      then show ?thesis using k rs(3) by simp
    qed
  qed
  from 1 2 3 show ?case by blast
qed

lemma match_loop_first_failure:
  "k < length imgs \<Longrightarrow>
   match_in_image self (snd (imgs ! k)) R (fst (imgs ! k)) = Inl e \<Longrightarrow>
   \<forall>j < k. \<exists>r. match_in_image self (snd (imgs ! j)) R (fst (imgs ! j)) = Inr r \<Longrightarrow>
   match_loop self imgs R acc = Inl e"
proof (induction imgs arbitrary: k acc)
  case Nil
  then show ?case by simp
next
  case (Cons x imgs)
  obtain p i where x: "x = (p, i)" by (cases x)
  show ?case
  proof (cases k)
    case 0
    then show ?thesis using Cons.prems(2) x by simp
  next
    case (Suc j)
    from Cons.prems(3) Suc have "\<exists>r. match_in_image self (snd ((x # imgs) ! 0)) R (fst ((x # imgs) ! 0)) = Inr r"
      by blast
    then obtain r where r: "match_in_image self i R p = Inr r"
      using x by auto
    have a: "j < length imgs" using Cons.prems(1) Suc by simp
    have b: "match_in_image self (snd (imgs ! j)) R (fst (imgs ! j)) = Inl e"
      using Cons.prems(2) Suc by simp
    have c: "\<forall>l < j. \<exists>r. match_in_image self (snd (imgs ! l)) R (fst (imgs ! l)) = Inr r"
    proof (intro allI impI)
      fix l assume "l < j"
      then have "Suc l < k" using Suc by simp
      with Cons.prems(3) have "\<exists>r. match_in_image self (snd ((x # imgs) ! Suc l)) R (fst ((x # imgs) ! Suc l)) = Inr r"
        by blast
      then show "\<exists>r. match_in_image self (snd (imgs ! l)) R (fst (imgs ! l)) = Inr r" by simp
    qed
    have "match_loop self imgs R (acc @ [r]) = Inl e"
      by (rule Cons.IH [OF a b c])
    then show ?thesis using x r by simp
  qed
qed

lemma batch_loop_failure:
  "m \<in> set masks \<Longrightarrow> interpolate_bilinear (astype_float m) (length g) (ncols g) = Inl e \<Longrightarrow>
   \<exists>e'. batch_loop g masks acc = Inl e'"
proof (induction masks arbitrary: acc)
  case Nil
  then show ?case by simp
next
  case (Cons a masks)
  show ?case
  proof (cases "interpolate_bilinear (astype_float a) (length g) (ncols g)")
    case (Inl e')
    then show ?thesis by (simp add: Let_def)
  next
    case (Inr mr)
    then have "m \<in> set masks" using Cons.prems by auto
    then have "\<exists>e'. batch_loop g masks acc' = Inl e'" for acc'
      using Cons.IH Cons.prems(2) by blast
    then show ?thesis using Inr by (auto simp: Let_def)
  qed
qed

lemma empty_mask_fails:
  "interpolate_bilinear (astype_float []) oh ow = Inl RuntimeError"
  by (simp add: interpolate_bilinear_def astype_float_def)


lemma demo_match_ok:
  "match_in_image demo_matcher (Suc n) demo_reference path
     = Inr \<lparr>image_path = path, image = Suc n,
            matches = [\<lparr>mask = demo_mask1, bbox = (0, 0, 5, 1), similarity = 9 / 10,
                        predicted_iou = 19 / 20, area = 3,
                        embedding = [9 / 10, 3 / 10, 3 / 10, 1 / 10]\<rparr>]\<rparr>"
proof -
  have ne: "demo_proposals \<noteq> []"
    by (simp add: demo_proposals_def)
  show ?thesis
    by (simp add: match_in_image_def Let_def ne demo_segmentations demo_matcher_fields
        demo_embeddings demo_similarities upt3 demo_proposals_def demo_boxes
        sort_by_similarity_def nms_eq suppresses_def iou_val_def truediv_def slice_to_def wrap64_def)
qed

lemma demo_match_fails:
  "match_in_image demo_matcher 0 demo_reference path = Inl RuntimeError"
  by (simp add: match_in_image_def Let_def demo_matcher_fields compute_batch_ffa_embeddings_def
      empty_mask_fails)

text \<open>
  Claim C4, as amended. \<open>match_across_images\<close> returns one result per target image, in
  order, when \<open>match_in_image\<close> succeeds on every image. Nothing isolates a failure: a
  candidate whose pooling fails (for example a mask of malformed shape) makes
  \<open>match_in_image\<close> fail for its image, and the first image that fails makes the whole
  call fail with that error, with no result for any image.
\<close>

theorem match_across_images_propagation:
  "((\<forall>k < length imgs. \<exists>r. match_in_image self (snd (imgs ! k)) R (fst (imgs ! k)) = Inr r)
      \<longrightarrow> (\<exists>rs. match_across_images self imgs R = Inr rs \<and> length rs = length imgs
             \<and> (\<forall>k < length imgs.
                   match_in_image self (snd (imgs ! k)) R (fst (imgs ! k)) = Inr (rs ! k))))
   \<and> (k < length imgs
        \<and> match_in_image self (snd (imgs ! k)) R (fst (imgs ! k)) = Inl e
        \<and> (\<forall>j < k. \<exists>r. match_in_image self (snd (imgs ! j)) R (fst (imgs ! j)) = Inr r)
      \<longrightarrow> match_across_images self imgs R = Inl e)
   \<and> (m \<in> set (map segmentation (auto_segmenter self img))
        \<and> interpolate_bilinear (astype_float m) (length (embedder self img))
              (ncols (embedder self img)) = Inl e'
      \<longrightarrow> (\<exists>e''. match_in_image self img R path = Inl e''))"
proof (intro conjI impI)
  assume "\<forall>k < length imgs. \<exists>r. match_in_image self (snd (imgs ! k)) R (fst (imgs ! k)) = Inr r"
  from match_loop_all_ok [OF this, of "[]"]
  show "\<exists>rs. match_across_images self imgs R = Inr rs \<and> length rs = length imgs
             \<and> (\<forall>k < length imgs.
                   match_in_image self (snd (imgs ! k)) R (fst (imgs ! k)) = Inr (rs ! k))"
    by (simp add: match_across_images_def)
next
  assume "k < length imgs
        \<and> match_in_image self (snd (imgs ! k)) R (fst (imgs ! k)) = Inl e
        \<and> (\<forall>j < k. \<exists>r. match_in_image self (snd (imgs ! j)) R (fst (imgs ! j)) = Inr r)"
  then show "match_across_images self imgs R = Inl e"
    unfolding match_across_images_def using match_loop_first_failure by blast
next
  assume a: "m \<in> set (map segmentation (auto_segmenter self img))
        \<and> interpolate_bilinear (astype_float m) (length (embedder self img))
              (ncols (embedder self img)) = Inl e'"
  then have ne: "auto_segmenter self img \<noteq> []" by auto
  from a obtain e'' where
    "batch_loop (embedder self img) (map segmentation (auto_segmenter self img)) [] = Inl e''"
    using batch_loop_failure by blast
  then have "compute_batch_ffa_embeddings (embedder self img)
               (map segmentation (auto_segmenter self img)) = Inl e''"
    using ne by (simp add: compute_batch_ffa_embeddings_def)
  then have "match_in_image self img R path = Inl e''"
    using ne by (simp add: match_in_image_def Let_def)
  then show "\<exists>e''. match_in_image self img R path = Inl e''" by blast
qed

theorem match_across_images_propagation_witness:
  "(\<exists>rs. match_across_images demo_matcher [(''view_1.jpg'', 1), (''view_2.jpg'', 2)] demo_reference
           = Inr rs \<and> length rs = 2)
   \<and> match_in_image demo_matcher 1 demo_reference ''view_1.jpg''
       = Inr \<lparr>image_path = ''view_1.jpg'', image = 1,
            matches = [\<lparr>mask = demo_mask1, bbox = (0, 0, 5, 1), similarity = 9 / 10,
                        predicted_iou = 19 / 20, area = 3,
                        embedding = [9 / 10, 3 / 10, 3 / 10, 1 / 10]\<rparr>]\<rparr>
   \<and> match_in_image demo_matcher 0 demo_reference ''view_0.jpg'' = Inl RuntimeError
   \<and> match_across_images demo_matcher
        [(''view_1.jpg'', 1), (''view_0.jpg'', 0), (''view_2.jpg'', 2)] demo_reference
       = Inl RuntimeError
   \<and> [] \<in> set (map segmentation (auto_segmenter demo_matcher 0))
   \<and> interpolate_bilinear (astype_float []) (length (embedder demo_matcher 0))
        (ncols (embedder demo_matcher 0)) = Inl RuntimeError
   \<and> (\<exists>e''. match_in_image demo_matcher 0 demo_reference ''view_0.jpg'' = Inl e'')"
proof -
  let ?ok = "[(''view_1.jpg'', 1 :: nat), (''view_2.jpg'', 2)]"
  let ?bad = "[(''view_1.jpg'', 1 :: nat), (''view_0.jpg'', 0), (''view_2.jpg'', 2)]"
  have m1: "match_in_image demo_matcher 1 demo_reference ''view_1.jpg''
       = Inr \<lparr>image_path = ''view_1.jpg'', image = 1,
            matches = [\<lparr>mask = demo_mask1, bbox = (0, 0, 5, 1), similarity = 9 / 10,
                        predicted_iou = 19 / 20, area = 3,
                        embedding = [9 / 10, 3 / 10, 3 / 10, 1 / 10]\<rparr>]\<rparr>"
    using demo_match_ok [of 0] by simp
  have m2: "\<exists>r. match_in_image demo_matcher 2 demo_reference ''view_2.jpg'' = Inr r"
    using demo_match_ok [of 1] by (simp add: numeral_2_eq_2)
  have m0: "match_in_image demo_matcher 0 demo_reference ''view_0.jpg'' = Inl RuntimeError"
    by (rule demo_match_fails)
  have ok: "\<forall>k < length ?ok. \<exists>r. match_in_image demo_matcher (snd (?ok ! k)) demo_reference
               (fst (?ok ! k)) = Inr r"
  proof (intro allI impI)
    fix k assume "k < length ?ok"
    then have "k = 0 \<or> k = 1" by auto
    then show "\<exists>r. match_in_image demo_matcher (snd (?ok ! k)) demo_reference (fst (?ok ! k)) = Inr r"
      using m1 m2 by auto
  qed
  have bad: "(1::nat) < length ?bad
        \<and> match_in_image demo_matcher (snd (?bad ! 1)) demo_reference (fst (?bad ! 1)) = Inl RuntimeError
        \<and> (\<forall>j < 1. \<exists>r. match_in_image demo_matcher (snd (?bad ! j)) demo_reference (fst (?bad ! j)) = Inr r)"
    using m0 m1 by simp
  have cand: "[] \<in> set (map segmentation (auto_segmenter demo_matcher 0))
        \<and> interpolate_bilinear (astype_float []) (length (embedder demo_matcher 0))
              (ncols (embedder demo_matcher 0)) = Inl RuntimeError"
    by (simp add: demo_matcher_fields empty_mask_fails)
  have r1: "\<exists>rs. match_across_images demo_matcher ?ok demo_reference = Inr rs \<and> length rs = 2"
    using match_across_images_propagation [where self = demo_matcher and imgs = ?ok
        and R = demo_reference, THEN conjunct1, THEN mp, OF ok] by auto
  have r2: "match_across_images demo_matcher ?bad demo_reference = Inl RuntimeError"
    using match_across_images_propagation [where self = demo_matcher and imgs = ?bad
        and R = demo_reference and k = 1 and e = RuntimeError] bad by blast
  have r3: "\<exists>e''. match_in_image demo_matcher 0 demo_reference ''view_0.jpg'' = Inl e''"
    using match_across_images_propagation [where self = demo_matcher and img = 0
        and m = "[]" and e' = RuntimeError and R = demo_reference and path = "''view_0.jpg''"] cand
    by blast
  from r1 m1 m0 r2 cand r3 show ?thesis by blast
qed

text \<open>
  Claim C4 as stated fails: image 1 alone is matched, but with image 0 before it, whose
  only proposal has a mask without rows, the run returns the error and no result; and
  one such mask aborts the batch of its sibling candidates.
\<close>

theorem match_across_images_abort_counterexample:
  "match_in_image demo_matcher 1 demo_reference ''view_1.jpg''
       = Inr \<lparr>image_path = ''view_1.jpg'', image = 1,
            matches = [\<lparr>mask = demo_mask1, bbox = (0, 0, 5, 1), similarity = 9 / 10,
                        predicted_iou = 19 / 20, area = 3,
                        embedding = [9 / 10, 3 / 10, 3 / 10, 1 / 10]\<rparr>]\<rparr>
   \<and> match_across_images demo_matcher [(''view_0.jpg'', 0), (''view_1.jpg'', 1)] demo_reference
       = Inl RuntimeError
   \<and> compute_batch_ffa_embeddings demo_grid [[], demo_mask1] = Inl RuntimeError"
proof -
  have "match_in_image demo_matcher 1 demo_reference ''view_1.jpg''
       = Inr \<lparr>image_path = ''view_1.jpg'', image = 1,
            matches = [\<lparr>mask = demo_mask1, bbox = (0, 0, 5, 1), similarity = 9 / 10,
                        predicted_iou = 19 / 20, area = 3,
                        embedding = [9 / 10, 3 / 10, 3 / 10, 1 / 10]\<rparr>]\<rparr>"
    using demo_match_ok [of 0] by simp
  moreover have "match_across_images demo_matcher [(''view_0.jpg'', 0), (''view_1.jpg'', 1)]
      demo_reference = Inl RuntimeError"
    by (simp add: match_across_images_def demo_match_fails)
  moreover have "compute_batch_ffa_embeddings demo_grid [[], demo_mask1] = Inl RuntimeError"
    by (simp add: compute_batch_ffa_embeddings_def empty_mask_fails)
  ultimately show ?thesis by blast
qed


end
